theory Spec2Isabelle
  imports
    Main
    "HOL-Library.Char_ord"
    "HOL-Library.List_Lexorder"
    "HOL-Library.Multiset"
    "HOL-Library.Product_Lexorder"
begin

section \<open>Strings, digits and Python's \<open>int\<close>\<close>

text \<open>
  The script \<open>tools/list_rocm_nightly.py\<close> works on Python \<open>str\<close> values. They are
  modelled as \<^typ>\<open>string\<close>, a list of 8-bit characters read as the code points
  U+0000 to U+00FF. In that range the decimal digits that \<open>\d\<close> and \<open>int\<close> accept are
  exactly \<open>0\<close> to \<open>9\<close>, and Python's comparison of strings (by code point, a proper
  prefix being smaller) is the lexicographic order on character lists.
\<close>

datatype exn = TypeError | ValueError | SystemExit2 | URLError | InvalidURL | UnicodeEncodeError

definition is_digit :: "char \<Rightarrow> bool" where
  "is_digit c = (CHR ''0'' \<le> c \<and> c \<le> CHR ''9'')"

definition digit_val :: "char \<Rightarrow> int" where
  "digit_val c = int (of_char c) - 48"

definition digits :: "string \<Rightarrow> bool" where
  "digits s = (s \<noteq> [] \<and> list_all is_digit s)"

definition dec_val :: "string \<Rightarrow> int" where
  "dec_val s = foldl (\<lambda>acc c. 10 * acc + digit_val c) 0 s"

text \<open>
  \<open>int(s)\<close> for a string: on a non-empty string of at most 4300 digits it is the decimal
  value. Python's integers are unbounded, and so is \<^typ>\<open>int\<close>, but the conversion from
  a string refuses more than \<open>sys.int_info.default_max_str_digits = 4300\<close> digits, leading
  zeros counted, with \<open>ValueError\<close>. Every string that is not made of digits is reported
  as \<open>ValueError\<close> too; Python would also accept a sign, surrounding white space and
  underscores between digits, none of which a group captured by \<open>\d+\<close> can hold.
\<close>

definition max_str_digits :: nat where
  "max_str_digits = 4300"

definition py_int :: "string \<Rightarrow> exn + int" where
  "py_int s =
     (if digits s \<and> length s \<le> max_str_digits then Inr (dec_val s) else Inl ValueError)"

section \<open>The fragment of Python's \<open>re\<close> that the script uses\<close>

text \<open>
  The three patterns of the script are built from single-character items (\<open>\d\<close>, a
  literal or escaped character, \<open>[^<]\<close>), the greedy repetition \<open>+\<close> of such an item,
  the greedy option \<open>?\<close>, alternation, concatenation, capture groups and the anchor
  \<open>$\<close>. A non-capturing group \<open>(?:r)\<close> is \<open>r\<close> itself.
\<close>

datatype cclass = Digit | Lit char | NotCh char

datatype rx =
    Eps
  | One cclass
  | Many cclass
  | Eos
  | Seq rx rx
  | Alt rx rx
  | Opt rx
  | Grp nat rx

fun in_class :: "cclass \<Rightarrow> char \<Rightarrow> bool" where
  "in_class Digit c = is_digit c"
| "in_class (Lit a) c = (c = a)"
| "in_class (NotCh a) c = (c \<noteq> a)"

type_synonym groups = "nat \<Rightarrow> string option"

type_synonym mstate = "string \<times> groups"

text \<open>
  \<open>ms r (s, g)\<close> lists, in the order in which Python's backtracking matcher tries them,
  the ways \<open>r\<close> can match at the front of the remaining input \<open>s\<close>: each result holds
  the input left over and the groups captured so far. A greedy \<open>+\<close> tries the longest
  run first, a greedy \<open>?\<close> tries the item before the empty match, an alternation its
  left branch first. Without the \<open>MULTILINE\<close> flag, \<open>$\<close> holds at the end of the
  string and also just before a newline that ends the string.
\<close>

primrec ms :: "rx \<Rightarrow> mstate \<Rightarrow> mstate list" where
  "ms Eps = (\<lambda>st. [st])"
| "ms (One c) = (\<lambda>st.
     (case fst st of [] \<Rightarrow> [] | x # xs \<Rightarrow> if in_class c x then [(xs, snd st)] else []))"
| "ms (Many c) = (\<lambda>st.
     map (\<lambda>k. (drop k (fst st), snd st))
       (rev [1 ..< Suc (length (takeWhile (in_class c) (fst st)))]))"
| "ms Eos = (\<lambda>st. if fst st = [] \<or> fst st = [CHR 0x0A] then [st] else [])"
| "ms (Seq r1 r2) = (\<lambda>st. concat (map (ms r2) (ms r1 st)))"
| "ms (Alt r1 r2) = (\<lambda>st. ms r1 st @ ms r2 st)"
| "ms (Opt r) = (\<lambda>st. ms r st @ [st])"
| "ms (Grp n r) = (\<lambda>st.
     map (\<lambda>st'. (fst st', (snd st')(n \<mapsto> take (length (fst st) - length (fst st')) (fst st))))
       (ms r st))"

text \<open>The first way \<open>r\<close> matches at the front of \<open>s\<close>, if any: the match Python reports.\<close>

definition first_match :: "rx \<Rightarrow> string \<Rightarrow> mstate option" where
  "first_match r s = (case ms r (s, Map.empty) of [] \<Rightarrow> None | st # _ \<Rightarrow> Some st)"

text \<open>\<open>re.match(r, s)\<close>: a match at the start of \<open>s\<close>; the result is the match's groups.\<close>

definition re_match :: "rx \<Rightarrow> string \<Rightarrow> groups option" where
  "re_match r s = map_option snd (first_match r s)"

text \<open>
  \<open>r.search(s)\<close>: the match at the leftmost position where there is one. None of the
  script's patterns looks behind its starting point, so matching at a position is matching
  the input that starts there.
\<close>

fun re_search :: "rx \<Rightarrow> string \<Rightarrow> groups option" where
  "re_search r [] = re_match r []"
| "re_search r (c # cs) =
     (case re_match r (c # cs) of Some g \<Rightarrow> Some g | None \<Rightarrow> re_search r cs)"

text \<open>
  \<open>re.findall(r, s)\<close> for a pattern with one group: the text of group 1 in each match,
  the matches taken from left to right without overlap. After a match that consumed
  nothing the scan moves on by one character.
\<close>

definition group_text :: "groups \<Rightarrow> nat \<Rightarrow> string" where
  "group_text g n = (case g n of None \<Rightarrow> [] | Some t \<Rightarrow> t)"

fun findall :: "rx \<Rightarrow> string \<Rightarrow> string list" where
  "findall r [] = (case first_match r [] of None \<Rightarrow> [] | Some st \<Rightarrow> [group_text (snd st) 1])"
| "findall r (c # cs) =
     (case first_match r (c # cs) of
        None \<Rightarrow> findall r cs
      | Some st \<Rightarrow>
          group_text (snd st) 1 #
            (if length (fst st) < length (c # cs) then findall r (fst st) else findall r cs))"

text \<open>
  A literal string as a pattern, the empty string being the empty pattern; \<open>re.escape\<close>
  makes every character of its argument stand for itself.
\<close>

fun lits :: "string \<Rightarrow> rx" where
  "lits [] = Eps"
| "lits (c # cs) = Seq (One (Lit c)) (lits cs)"

section \<open>\<open>parse_version\<close>\<close>

type_synonym vkey = "int \<times> int \<times> int \<times> int \<times> int"

text \<open>The pattern \<open>(\d+)\.(\d+)\.(\d+)(a|rc)?(\d+)?$\<close> of \<open>parse_version\<close>.\<close>

definition version_rx :: rx where
  "version_rx =
     Seq (Grp 1 (Many Digit)) (Seq (One (Lit CHR ''.''))
    (Seq (Grp 2 (Many Digit)) (Seq (One (Lit CHR ''.''))
    (Seq (Grp 3 (Many Digit))
    (Seq (Opt (Grp 4 (Alt (One (Lit CHR ''a'')) (Seq (One (Lit CHR ''r'')) (One (Lit CHR ''c''))))))
    (Seq (Opt (Grp 5 (Many Digit)))
     Eos))))))"

text \<open>
  A group that took no part in the match is \<open>None\<close>, and \<open>int(None)\<close> raises
  \<open>TypeError\<close>.
\<close>

definition int_group :: "string option \<Rightarrow> exn + int" where
  "int_group x = (case x of None \<Rightarrow> Inl TypeError | Some s \<Rightarrow> py_int s)"

definition sentinel :: vkey where
  "sentinel = (0, 0, 0, 1, 0)"

definition parse_version :: "string \<Rightarrow> exn + vkey" where
  "parse_version v =
     (case re_match version_rx v of
        None \<Rightarrow> Inr sentinel
      | Some g \<Rightarrow>
          (let pre_type = g 4; pre_num = g 5;
               pre_order = (if pre_type = None \<or> pre_type = Some [] then 2
                            else if pre_type = Some ''a'' then 0 else (1::int))
           in case int_group (g 1) of Inl e \<Rightarrow> Inl e | Inr major \<Rightarrow>
              (case int_group (g 2) of Inl e \<Rightarrow> Inl e | Inr minor \<Rightarrow>
              (case int_group (g 3) of Inl e \<Rightarrow> Inl e | Inr patch \<Rightarrow>
              (case (if pre_num = None \<or> pre_num = Some [] then Inr 0 else int_group pre_num) of
                 Inl e \<Rightarrow> Inl e
               | Inr n \<Rightarrow> Inr (major, minor, patch, pre_order, n))))))"

section \<open>\<open>main\<close>\<close>

record args =
  platform :: string
  target :: string
  count :: int
  quiet :: bool

text \<open>
  What the command line supplies: the value of each option when it is given, and whether
  the flag \<open>--quiet\<close> is present. The conversion \<open>type=int\<close> of \<open>--count\<close> is taken as
  done: a text that \<open>int\<close> rejects makes \<open>argparse\<close> exit with status 2 like a
  platform outside \<open>choices\<close>.
\<close>

record argv =
  given_platform :: "string option"
  given_target :: "string option"
  given_count :: "int option"
  given_quiet :: bool

definition parse_args :: "argv \<Rightarrow> exn + args" where
  "parse_args a =
     (case given_platform a of
        Some p \<Rightarrow>
          if p \<in> set [''linux'', ''windows'']
          then Inr \<lparr>platform = p,
                    target = (case given_target a of None \<Rightarrow> ''gfx1151'' | Some t \<Rightarrow> t),
                    count = (case given_count a of None \<Rightarrow> 5 | Some n \<Rightarrow> n),
                    quiet = given_quiet a\<rparr>
          else Inl SystemExit2
      | None \<Rightarrow>
          Inr \<lparr>platform = ''linux'',
                target = (case given_target a of None \<Rightarrow> ''gfx1151'' | Some t \<Rightarrow> t),
                count = (case given_count a of None \<Rightarrow> 5 | Some n \<Rightarrow> n),
                quiet = given_quiet a\<rparr>)"

definition S3_BASE :: string where
  "S3_BASE = ''https://therock-nightly-tarball.s3.amazonaws.com/''"

text \<open>Lines 31 to 35: the target as it appears in the bucket's keys.\<close>

definition s3_target :: "string \<Rightarrow> string" where
  "s3_target t =
     (if t = ''gfx110X'' then t @ ''-dgpu''
      else if t = ''gfx120X'' then t @ ''-all''
      else t)"

definition prefix :: "string \<Rightarrow> string \<Rightarrow> string" where
  "prefix p t = ''therock-dist-'' @ p @ ''-'' @ s3_target t @ ''-7''"

text \<open>
  The pattern of line 38: the escaped \<open>prefix[:-2]\<close>, then
  \<open>-(\d+\.\d+\.\d+(?:a\d+|rc\d+)?)\.tar\.gz$\<close>.
\<close>

definition key_rx :: "string \<Rightarrow> rx" where
  "key_rx pre =
     Seq (lits (take (length pre - 2) pre))
      (Seq (One (Lit CHR ''-''))
      (Seq (Grp 1
              (Seq (Many Digit) (Seq (One (Lit CHR ''.''))
              (Seq (Many Digit) (Seq (One (Lit CHR ''.''))
              (Seq (Many Digit)
                   (Opt (Alt (Seq (One (Lit CHR ''a'')) (Many Digit))
                             (Seq (One (Lit CHR ''r'')) (Seq (One (Lit CHR ''c'')) (Many Digit)))))))))))
      (Seq (lits ''.tar.gz'') Eos)))"

text \<open>The pattern \<open><Key>([^<]+)</Key>\<close> of line 50.\<close>

definition xml_key_rx :: rx where
  "xml_key_rx = Seq (lits ''<Key>'') (Seq (Grp 1 (Many (NotCh CHR ''<''))) (lits ''</Key>''))"

text \<open>
  Lines 49 to 52: the keys of the listing that the pattern finds, each with the version key
  of its captured version text, in the order of the listing.
\<close>

type_synonym candidate = "vkey \<times> string"

fun collect :: "rx \<Rightarrow> string list \<Rightarrow> exn + candidate list" where
  "collect pat [] = Inr []"
| "collect pat (key # keys) =
     (case re_search pat key of
        None \<Rightarrow> collect pat keys
      | Some g \<Rightarrow>
          (case (case g 1 of None \<Rightarrow> Inl TypeError | Some v \<Rightarrow> parse_version v) of
             Inl e \<Rightarrow> Inl e
           | Inr k \<Rightarrow>
               (case collect pat keys of Inl e \<Rightarrow> Inl e | Inr cs \<Rightarrow> Inr ((k, key) # cs))))"

definition candidates_of :: "rx \<Rightarrow> string \<Rightarrow> exn + candidate list" where
  "candidates_of pat data = collect pat (findall xml_key_rx data)"

text \<open>
  Line 55, \<open>candidates.sort(reverse=True)\<close>: the list is reversed, sorted by a stable
  sort on the tuples (version key first, then the key string) and reversed again.
\<close>

definition sort_reverse :: "candidate list \<Rightarrow> candidate list" where
  "sort_reverse cs = rev (sort (rev cs))"

text \<open>The slice \<open>xs[:n]\<close>: a negative \<open>n\<close> counts from the end.\<close>

definition slice_to :: "int \<Rightarrow> 'a list \<Rightarrow> 'a list" where
  "slice_to n xs = (if n < 0 then take (nat (int (length xs) + n)) xs else take (nat n) xs)"

definition newest_of :: "int \<Rightarrow> candidate list \<Rightarrow> candidate list" where
  "newest_of n cs = (if cs \<noteq> [] then slice_to n cs else [])"

text \<open>Lines 60 and 61: one line per entry, the base address followed by the key.\<close>

definition url_lines :: "candidate list \<Rightarrow> string list" where
  "url_lines newest = map (\<lambda>c. S3_BASE @ snd c) newest"

fun str_nat :: "nat \<Rightarrow> string" where
  "str_nat n =
     (if n < 10 then [char_of (48 + n)] else str_nat (n div 10) @ [char_of (48 + n mod 10)])"

text \<open>
  The body of \<open>main\<close> after the arguments are parsed. \<open>urlopen\<close> stands for the request
  and the decoding of its answer: the text of the listing, or the exception that ends the
  run. The result is what was printed and the exception that ended the run, if any.
\<close>

definition run :: "(string \<Rightarrow> exn + string) \<Rightarrow> args \<Rightarrow> string list \<times> exn option" where
  "run urlopen a =
     (let pre = prefix (platform a) (target a);
          pattern = key_rx pre;
          out1 = (if \<not> quiet a then [''Fetching S3 listing for prefix: '' @ pre @ '' ...''] else [])
      in case urlopen (S3_BASE @ ''?prefix='' @ pre) of
           Inl e \<Rightarrow> (out1, Some e)
         | Inr data \<Rightarrow>
             (case candidates_of pattern data of
                Inl e \<Rightarrow> (out1, Some e)
              | Inr candidates \<Rightarrow>
                  (let newest = newest_of (count a) (sort_reverse candidates);
                       out2 = (if \<not> quiet a
                               then [''Showing '' @ str_nat (length newest) @ '' newest candidate(s):'']
                               else [])
                   in (out1 @ out2 @ url_lines newest, None))))"

definition main :: "(string \<Rightarrow> exn + string) \<Rightarrow> argv \<Rightarrow> string list \<times> exn option" where
  "main urlopen av = (case parse_args av of Inl e \<Rightarrow> ([], Some e) | Inr a \<Rightarrow> run urlopen a)"

section \<open>\<open>urllib.request.urlopen\<close>\<close>

text \<open>
  What \<open>urlopen\<close> does with an address of this script (scheme \<open>https\<close>, the fixed host
  of \<open>S3_BASE\<close>, no proxy) before anything is sent. The fragment, the text after the
  last \<open>#\<close>, is dropped. \<open>http.client\<close> refuses a request address that holds a character
  from U+0000 to U+0020 or U+007F with \<open>InvalidURL\<close>, and the request line is encoded as
  ASCII, which fails with \<open>UnicodeEncodeError\<close> on a character above U+007F. Otherwise
  the request is sent; \<open>net\<close> stands for the network and the server: the decoded body
  answered for the request address, or the exception raised on the way. \<open>urlopen_via net\<close>
  is then a value for the parameter \<open>urlopen\<close> of \<open>run\<close> and \<open>main\<close>.
\<close>

definition request_url :: "string \<Rightarrow> string" where
  "request_url url =
     (if CHR ''#'' \<in> set url then rev (tl (dropWhile (\<lambda>c. c \<noteq> CHR ''#'') (rev url))) else url)"

definition refused_char :: "char \<Rightarrow> bool" where
  "refused_char c = (c \<le> CHR 0x20 \<or> c = CHR 0x7F)"

definition urlopen_via :: "(string \<Rightarrow> exn + string) \<Rightarrow> string \<Rightarrow> exn + string" where
  "urlopen_via net url =
     (let req = request_url url
      in if list_ex refused_char req then Inl InvalidURL
         else if list_ex (\<lambda>c. CHR 0x7F < c) req then Inl UnicodeEncodeError
         else net req)"

section \<open>Notions of the specification\<close>

subsection \<open>Version strings and their intended order\<close>

text \<open>
  A version string \<open>MAJOR.MINOR.PATCH[SUFFIX]\<close>: three fields and a suffix that is
  absent, \<open>a<N>\<close> or \<open>rc<N>\<close>. The fields and \<open>N\<close> are kept as the digit strings
  they are written with.
\<close>

datatype suffix = Absent | A_build string | Rc_build string

fun suffix_text :: "suffix \<Rightarrow> string" where
  "suffix_text Absent = []"
| "suffix_text (A_build n) = CHR ''a'' # n"
| "suffix_text (Rc_build n) = CHR ''r'' # CHR ''c'' # n"

fun suffix_num :: "suffix \<Rightarrow> string" where
  "suffix_num Absent = []"
| "suffix_num (A_build n) = n"
| "suffix_num (Rc_build n) = n"

definition version_text :: "string \<Rightarrow> string \<Rightarrow> string \<Rightarrow> suffix \<Rightarrow> string" where
  "version_text a b c suf = a @ CHR ''.'' # b @ CHR ''.'' # c @ suffix_text suf"

text \<open>The number of a suffix is a digit string; a bare \<open>a\<close> or \<open>rc\<close> has none.\<close>

definition numbered :: "suffix \<Rightarrow> bool" where
  "numbered suf = (suf = Absent \<or> digits (suffix_num suf))"

text \<open>
  A field that \<open>int\<close> converts: a digit string of at most 4300 digits. A version string
  is within the limit when its three fields and the number of its suffix are.
\<close>

definition int_field :: "string \<Rightarrow> bool" where
  "int_field s = (digits s \<and> length s \<le> max_str_digits)"

definition within_limit :: "string \<Rightarrow> string \<Rightarrow> string \<Rightarrow> suffix \<Rightarrow> bool" where
  "within_limit a b c suf =
     (int_field a \<and> int_field b \<and> int_field c \<and> length (suffix_num suf) \<le> max_str_digits)"

definition suffix_ok :: "suffix \<Rightarrow> bool" where
  "suffix_ok suf = (suffix_num suf = [] \<or> digits (suffix_num suf))"

text \<open>
  The order the specification intends: major, minor and patch compared as numbers, then
  the channel with alpha below release candidate below stable, then the build number.
\<close>

datatype channel = Alpha | Rc | Stable

fun channel_of :: "suffix \<Rightarrow> channel" where
  "channel_of Absent = Stable"
| "channel_of (A_build n) = Alpha"
| "channel_of (Rc_build n) = Rc"

fun channel_less :: "channel \<Rightarrow> channel \<Rightarrow> bool" where
  "channel_less Alpha Rc = True"
| "channel_less Alpha Stable = True"
| "channel_less Rc Stable = True"
| "channel_less _ _ = False"

type_synonym release = "int \<times> int \<times> int \<times> channel \<times> int"

definition release_of :: "string \<Rightarrow> string \<Rightarrow> string \<Rightarrow> suffix \<Rightarrow> release" where
  "release_of a b c suf = (dec_val a, dec_val b, dec_val c, channel_of suf, dec_val (suffix_num suf))"

fun older :: "release \<Rightarrow> release \<Rightarrow> bool" where
  "older (ma, mi, pa, ch, n) (ma', mi', pa', ch', n') =
     (ma < ma' \<or> (ma = ma' \<and>
       (mi < mi' \<or> (mi = mi' \<and>
         (pa < pa' \<or> (pa = pa' \<and>
           (channel_less ch ch' \<or> (ch = ch' \<and> n < n'))))))))"

text \<open>The comparison \<open>parse_version(s) > parse_version(t)\<close> of two version keys.\<close>

definition outranks :: "string \<Rightarrow> string \<Rightarrow> bool" where
  "outranks s t =
     (case parse_version s of
        Inl e \<Rightarrow> False
      | Inr k \<Rightarrow> (case parse_version t of Inl e \<Rightarrow> False | Inr k' \<Rightarrow> k' < k))"

subsection \<open>The grammar a pattern denotes\<close>

text \<open>
  \<open>matches r w rest\<close>: the pattern \<open>r\<close> denotes the text \<open>w\<close> when \<open>rest\<close> follows it.
  This is the usual reading of a regular expression as a set of strings, with no order
  among alternatives and no backtracking; only \<open>$\<close> looks at what follows.
\<close>

primrec matches :: "rx \<Rightarrow> string \<Rightarrow> string \<Rightarrow> bool" where
  "matches Eps w rest = (w = [])"
| "matches (One c) w rest = (case w of [x] \<Rightarrow> in_class c x | _ \<Rightarrow> False)"
| "matches (Many c) w rest = (w \<noteq> [] \<and> list_all (in_class c) w)"
| "matches Eos w rest = (w = [] \<and> (rest = [] \<or> rest = [CHR 0x0A]))"
| "matches (Seq r1 r2) w rest =
     list_ex (\<lambda>k. matches r1 (take k w) (drop k w @ rest) \<and> matches r2 (drop k w) rest)
       [0 ..< Suc (length w)]"
| "matches (Alt r1 r2) w rest = (matches r1 w rest \<or> matches r2 w rest)"
| "matches (Opt r) w rest = (w = [] \<or> matches r w rest)"
| "matches (Grp n r) w rest = matches r w rest"

text \<open>A string matches the version grammar when the pattern denotes a front part of it.\<close>

definition in_grammar :: "rx \<Rightarrow> string \<Rightarrow> bool" where
  "in_grammar r v = list_ex (\<lambda>k. matches r (take k v) (drop k v)) [0 ..< Suc (length v)]"

subsection \<open>Positions in a list\<close>

text \<open>\<open>before xs a b\<close>: an occurrence of \<open>a\<close> stands in front of an occurrence of \<open>b\<close>.\<close>

fun before :: "'a list \<Rightarrow> 'a \<Rightarrow> 'a \<Rightarrow> bool" where
  "before [] a b = False"
| "before (x # xs) a b = ((x = a \<and> b \<in> set xs) \<or> before xs a b)"

subsection \<open>Sample inputs\<close>

text \<open>
  A listing as the bucket answers it, with three keys of the expected form and one that
  is not; a listing with five keys of the expected form; and a listing with two keys whose
  versions, \<open>7.00.1\<close> and \<open>7.0.1\<close>, have the same version key.
\<close>

definition sample_listing :: string where
  "sample_listing =
     ''<?xml version=\"1.0\" encoding=\"UTF-8\"?><ListBucketResult>'' @
     ''<Name>therock-nightly-tarball</Name><Prefix>therock-dist-linux-gfx1151-7</Prefix>'' @
     ''<Contents><Key>therock-dist-linux-gfx1151-7.0.0.tar.gz</Key><Size>1</Size></Contents>'' @
     ''<Contents><Key>therock-dist-linux-gfx1151-7.1.0a1.tar.gz</Key></Contents>'' @
     ''<Contents><Key>therock-dist-linux-gfx1151-7.0.1rc2.tar.gz</Key></Contents>'' @
     ''<Contents><Key>therock-dist-linux-gfx1151-7-README.txt</Key></Contents>'' @
     ''</ListBucketResult>''"

definition five_listing :: string where
  "five_listing =
     ''<Key>therock-dist-linux-gfx1151-7.0.0.tar.gz</Key>'' @
     ''<Key>therock-dist-linux-gfx1151-7.1.0a2.tar.gz</Key>'' @
     ''<Key>therock-dist-linux-gfx1151-7.0.1rc2.tar.gz</Key>'' @
     ''<Key>therock-dist-linux-gfx1151-7.1.0a10.tar.gz</Key>'' @
     ''<Key>therock-dist-linux-gfx1151-7.0.1.tar.gz</Key>''"

definition tie_listing :: string where
  "tie_listing =
     ''<Key>therock-dist-linux-gfx1151-7.00.1.tar.gz</Key>'' @
     ''<Key>therock-dist-linux-gfx1151-7.0.1.tar.gz</Key>''"

definition tie_first :: candidate where
  "tie_first = ((7, 0, 1, 2, 0), ''therock-dist-linux-gfx1151-7.00.1.tar.gz'')"

definition tie_second :: candidate where
  "tie_second = ((7, 0, 1, 2, 0), ''therock-dist-linux-gfx1151-7.0.1.tar.gz'')"

definition c_7_0_0 :: candidate where
  "c_7_0_0 = ((7, 0, 0, 2, 0), ''therock-dist-linux-gfx1151-7.0.0.tar.gz'')"

definition c_7_0_1rc2 :: candidate where
  "c_7_0_1rc2 = ((7, 0, 1, 1, 2), ''therock-dist-linux-gfx1151-7.0.1rc2.tar.gz'')"

definition c_7_1_0a1 :: candidate where
  "c_7_1_0a1 = ((7, 1, 0, 0, 1), ''therock-dist-linux-gfx1151-7.1.0a1.tar.gz'')"

definition c_7_1_0a2 :: candidate where
  "c_7_1_0a2 = ((7, 1, 0, 0, 2), ''therock-dist-linux-gfx1151-7.1.0a2.tar.gz'')"

definition c_7_1_0a10 :: candidate where
  "c_7_1_0a10 = ((7, 1, 0, 0, 10), ''therock-dist-linux-gfx1151-7.1.0a10.tar.gz'')"

definition c_7_0_1 :: candidate where
  "c_7_0_1 = ((7, 0, 1, 2, 0), ''therock-dist-linux-gfx1151-7.0.1.tar.gz'')"

definition linux_gfx1151 :: "int \<Rightarrow> bool \<Rightarrow> args" where
  "linux_gfx1151 n q = \<lparr>platform = ''linux'', target = ''gfx1151'', count = n, quiet = q\<rparr>"

text \<open>
  A target made of printable ASCII characters other than the space and \<open>#\<close>, and the
  answer of the bucket when no key has the requested prefix.
\<close>

definition plain_char :: "char \<Rightarrow> bool" where
  "plain_char c = (CHR 0x20 < c \<and> c < CHR 0x7F \<and> c \<noteq> CHR ''#'')"

definition plain_target :: "string \<Rightarrow> bool" where
  "plain_target t = list_all plain_char t"

definition empty_listing :: string where
  "empty_listing = ''<ListBucketResult><Name>therock-nightly-tarball</Name></ListBucketResult>''"

definition default_argv :: argv where
  "default_argv =
     \<lparr>given_platform = None, given_target = None, given_count = None, given_quiet = False\<rparr>"

text \<open>The address of the request of line 45.\<close>

definition listing_url :: "string \<Rightarrow> string \<Rightarrow> string" where
  "listing_url p t = S3_BASE @ ''?prefix='' @ prefix p t"

text \<open>The two status lines of lines 43 and 59, absent under \<open>--quiet\<close>.\<close>

definition fetching_line :: "args \<Rightarrow> string list" where
  "fetching_line a =
     (if quiet a then []
      else [''Fetching S3 listing for prefix: '' @ prefix (platform a) (target a) @ '' ...''])"

definition showing_line :: "args \<Rightarrow> nat \<Rightarrow> string list" where
  "showing_line a n =
     (if quiet a then [] else [''Showing '' @ str_nat n @ '' newest candidate(s):''])"

subsection \<open>The first result of the matcher\<close>

definition leads :: "rx \<Rightarrow> mstate \<Rightarrow> mstate \<Rightarrow> bool" where
  "leads r st x = (\<exists>more. ms r st = x # more)"

fun suffix_groups :: "suffix \<Rightarrow> groups \<Rightarrow> groups" where
  "suffix_groups Absent g = g"
| "suffix_groups (A_build n) g = (if n = [] then g(4 \<mapsto> ''a'') else g(4 \<mapsto> ''a'', 5 \<mapsto> n))"
| "suffix_groups (Rc_build n) g = (if n = [] then g(4 \<mapsto> ''rc'') else g(4 \<mapsto> ''rc'', 5 \<mapsto> n))"

text \<open>The rank that \<open>parse_version\<close> gives to each kind of suffix.\<close>

fun stability_rank :: "suffix \<Rightarrow> int" where
  "stability_rank Absent = 2"
| "stability_rank (A_build n) = 0"
| "stability_rank (Rc_build n) = 1"

definition chan_rx :: rx where
  "chan_rx = Opt (Grp 4 (Alt (One (Lit CHR ''a'')) (Seq (One (Lit CHR ''r'')) (One (Lit CHR ''c'')))))"

definition tail_rx :: rx where
  "tail_rx = Seq (Opt (Grp 5 (Many Digit))) Eos"

section \<open>The target resolver and the prefix\<close>

text \<open>
  C6. The target resolver maps the literal target \<open>gfx110X\<close> to \<open>gfx110X-dgpu\<close> and the
  literal \<open>gfx120X\<close> to \<open>gfx120X-all\<close>, and passes every other target through unchanged.
  The bucket key prefix is \<open>therock-dist-{platform}-{resolved_target}-7\<close>, and the listing
  that a run reads is the one requested for that prefix: the run does not change when
  every other request is made to fail.
\<close>

theorem s3_target_prefix:
  "s3_target ''gfx110X'' = ''gfx110X-dgpu'' \<and>
   s3_target ''gfx120X'' = ''gfx120X-all'' \<and>
   (t \<noteq> ''gfx110X'' \<and> t \<noteq> ''gfx120X'' \<longrightarrow> s3_target t = t) \<and>
   prefix p t = ''therock-dist-'' @ p @ ''-'' @ s3_target t @ ''-7'' \<and>
   run urlopen \<lparr>platform = p, target = t, count = n, quiet = q\<rparr> =
     run (\<lambda>u. if u = S3_BASE @ ''?prefix=therock-dist-'' @ p @ ''-'' @ s3_target t @ ''-7''
               then urlopen u else Inl URLError)
         \<lparr>platform = p, target = t, count = n, quiet = q\<rparr>"
  by (simp add: s3_target_def prefix_def run_def)

theorem s3_target_prefix_witness:
  "''gfx1151'' \<noteq> ''gfx110X'' \<and> ''gfx1151'' \<noteq> ''gfx120X'' \<and>
   s3_target ''gfx1151'' = ''gfx1151'' \<and>
   prefix ''linux'' ''gfx1151'' = ''therock-dist-linux-gfx1151-7''"
  using s3_target_prefix [of "''gfx1151''" "''linux''" "\<lambda>u. Inl URLError" 5 True]
  by (simp add: s3_target_def)

section \<open>The first match of the version pattern\<close>

lemma leads_Seq: "leads r1 st x \<Longrightarrow> leads r2 x y \<Longrightarrow> leads (Seq r1 r2) st y"
  by (auto simp: leads_def)

lemma leads_One: "in_class c x \<Longrightarrow> leads (One c) (x # xs, g) (xs, g)"
  by (simp add: leads_def)

lemma leads_Opt_some: "leads r st x \<Longrightarrow> leads (Opt r) st x"
  by (auto simp: leads_def)

lemma leads_Opt_none: "ms r st = [] \<Longrightarrow> leads (Opt r) st st"
  by (simp add: leads_def)

lemma leads_Alt_left: "leads r1 st x \<Longrightarrow> leads (Alt r1 r2) st x"
  by (auto simp: leads_def)

lemma leads_Alt_right: "ms r1 st = [] \<Longrightarrow> leads r2 st x \<Longrightarrow> leads (Alt r1 r2) st x"
  by (auto simp: leads_def)

lemma leads_Grp:
  "leads r (s, g) (s', g') \<Longrightarrow>
   leads (Grp n r) (s, g) (s', g'(n \<mapsto> take (length s - length s') s))"
  by (auto simp: leads_def)

lemma leads_Eos: "s = [] \<or> s = [CHR 0x0A] \<Longrightarrow> leads Eos (s, g) (s, g)"
  by (auto simp: leads_def)

lemma takeWhile_digits:
  "list_all is_digit ds \<Longrightarrow> rest = [] \<or> \<not> is_digit (hd rest) \<Longrightarrow>
   takeWhile is_digit (ds @ rest) = ds"
  by (induction ds) (cases rest; simp)+

lemma leads_Many_digits:
  assumes "digits ds" and "rest = [] \<or> \<not> is_digit (hd rest)"
  shows "leads (Many Digit) (ds @ rest, g) (rest, g)"
proof -
  have tw: "takeWhile (in_class Digit) (ds @ rest) = ds"
    using assms takeWhile_digits [of ds rest] by (simp add: digits_def in_class.simps [abs_def])
  from assms obtain m where m: "length ds = Suc m"
    by (cases ds) (auto simp: digits_def)
  show ?thesis
    unfolding leads_def by (simp add: tw m)
qed

lemma leads_digits_group:
  assumes "digits ds" and "rest = [] \<or> \<not> is_digit (hd rest)"
  shows "leads (Grp n (Many Digit)) (ds @ rest, g) (rest, g(n \<mapsto> ds))"
  using leads_Grp [OF leads_Many_digits [OF assms, of g], of n] by simp

lemma version_rx_alt:
  "version_rx =
     Seq (Grp 1 (Many Digit)) (Seq (One (Lit CHR ''.''))
    (Seq (Grp 2 (Many Digit)) (Seq (One (Lit CHR ''.''))
    (Seq (Grp 3 (Many Digit)) (Seq chan_rx tail_rx)))))"
  by (simp add: version_rx_def chan_rx_def tail_rx_def)

lemma tail_leads_empty: "leads tail_rx ([], g) ([], g)"
  unfolding tail_rx_def
  by (rule leads_Seq [OF leads_Opt_none leads_Eos]) simp_all

lemma tail_leads_digits:
  assumes "digits n"
  shows "leads tail_rx (n, g) ([], g(5 \<mapsto> n))"
proof -
  have "leads (Grp 5 (Many Digit)) (n @ [], g) ([], g(5 \<mapsto> n))"
    by (rule leads_digits_group [OF assms]) simp
  then have "leads (Opt (Grp 5 (Many Digit))) (n, g) ([], g(5 \<mapsto> n))"
    by (simp add: leads_Opt_some)
  then show ?thesis
    unfolding tail_rx_def by (rule leads_Seq) (simp add: leads_Eos)
qed

lemma tail_leads:
  "n = [] \<or> digits n \<Longrightarrow> leads tail_rx (n, g) ([], if n = [] then g else g(5 \<mapsto> n))"
  using tail_leads_empty tail_leads_digits by auto

lemma chan_leads_none: "leads chan_rx ([], g) ([], g)"
  unfolding chan_rx_def by (rule leads_Opt_none) simp

lemma chan_leads_a: "leads chan_rx (CHR ''a'' # n, g) (n, g(4 \<mapsto> ''a''))"
proof -
  have "leads (Alt (One (Lit CHR ''a'')) (Seq (One (Lit CHR ''r'')) (One (Lit CHR ''c''))))
          (CHR ''a'' # n, g) (n, g)"
    by (rule leads_Alt_left) (simp add: leads_One)
  from leads_Grp [OF this, of 4] show ?thesis
    unfolding chan_rx_def by (simp add: leads_Opt_some)
qed

lemma chan_leads_rc: "leads chan_rx (CHR ''r'' # CHR ''c'' # n, g) (n, g(4 \<mapsto> ''rc''))"
proof -
  have "leads (Seq (One (Lit CHR ''r'')) (One (Lit CHR ''c''))) (CHR ''r'' # CHR ''c'' # n, g) (n, g)"
    by (rule leads_Seq [OF leads_One leads_One]) simp_all
  then have "leads (Alt (One (Lit CHR ''a'')) (Seq (One (Lit CHR ''r'')) (One (Lit CHR ''c''))))
          (CHR ''r'' # CHR ''c'' # n, g) (n, g)"
    by (intro leads_Alt_right) simp_all
  from leads_Grp [OF this, of 4] show ?thesis
    unfolding chan_rx_def by (simp add: leads_Opt_some)
qed

lemma suffix_leads:
  assumes "suffix_ok suf"
  shows "leads (Seq chan_rx tail_rx) (suffix_text suf, g) ([], suffix_groups suf g)"
proof (cases suf)
  case Absent
  then show ?thesis
    using leads_Seq [OF chan_leads_none tail_leads_empty, of g] by simp
next
  case (A_build n)
  with assms have n: "n = [] \<or> digits n" by (simp add: suffix_ok_def)
  show ?thesis
    using leads_Seq [OF chan_leads_a tail_leads [OF n], of g] A_build by auto
next
  case (Rc_build n)
  with assms have n: "n = [] \<or> digits n" by (simp add: suffix_ok_def)
  show ?thesis
    using leads_Seq [OF chan_leads_rc tail_leads [OF n], of g] Rc_build by auto
qed

lemma suffix_text_no_digit: "suffix_text suf = [] \<or> \<not> is_digit (hd (suffix_text suf))"
  by (cases suf) (simp_all add: is_digit_def)

lemma dot_no_digit: "\<not> is_digit CHR ''.''"
  by (simp add: is_digit_def)

lemma version_rx_leads:
  assumes "digits a" "digits b" "digits c" "suffix_ok suf"
  shows "leads version_rx (version_text a b c suf, g)
           ([], suffix_groups suf (g(1 \<mapsto> a, 2 \<mapsto> b, 3 \<mapsto> c)))"
proof -
  let ?g1 = "g(1 \<mapsto> a)" and ?g2 = "g(1 \<mapsto> a, 2 \<mapsto> b)"
  let ?g3 = "g(1 \<mapsto> a, 2 \<mapsto> b, 3 \<mapsto> c)"
  let ?r3 = "c @ suffix_text suf"
  let ?r2 = "b @ CHR ''.'' # ?r3"
  have s3: "leads (Seq (Grp 3 (Many Digit)) (Seq chan_rx tail_rx)) (?r3, ?g2)
              ([], suffix_groups suf ?g3)"
    by (rule leads_Seq [OF leads_digits_group [OF assms(3) suffix_text_no_digit]
          suffix_leads [OF assms(4)]])
  have d2: "leads (One (Lit CHR ''.'')) (CHR ''.'' # ?r3, ?g2) (?r3, ?g2)"
    by (simp add: leads_One)
  have g2: "leads (Grp 2 (Many Digit)) (b @ CHR ''.'' # ?r3, ?g1) (CHR ''.'' # ?r3, ?g2)"
    by (rule leads_digits_group [OF assms(2)]) (simp add: dot_no_digit)
  have d1: "leads (One (Lit CHR ''.'')) (CHR ''.'' # ?r2, ?g1) (?r2, ?g1)"
    by (simp add: leads_One)
  have g1: "leads (Grp 1 (Many Digit)) (a @ CHR ''.'' # ?r2, g) (CHR ''.'' # ?r2, ?g1)"
    by (rule leads_digits_group [OF assms(1)]) (simp add: dot_no_digit)
  show ?thesis
    unfolding version_rx_alt version_text_def
    by (rule leads_Seq [OF g1 leads_Seq [OF d1 leads_Seq [OF g2 leads_Seq [OF d2 s3]]]])
qed

lemma re_match_version_text:
  assumes "digits a" "digits b" "digits c" "suffix_ok suf"
  shows "re_match version_rx (version_text a b c suf) =
           Some (suffix_groups suf [1 \<mapsto> a, 2 \<mapsto> b, 3 \<mapsto> c])"
  using version_rx_leads [OF assms, of Map.empty]
  by (auto simp: leads_def re_match_def first_match_def)

lemma dec_val_Nil: "dec_val [] = 0"
  by (simp add: dec_val_def)

lemma parse_version_text:
  assumes "digits a" "digits b" "digits c" "suffix_ok suf"
  shows "parse_version (version_text a b c suf) =
           (if length a \<le> max_str_digits \<and> length b \<le> max_str_digits \<and>
               length c \<le> max_str_digits \<and> length (suffix_num suf) \<le> max_str_digits
            then Inr (dec_val a, dec_val b, dec_val c, stability_rank suf, dec_val (suffix_num suf))
            else Inl ValueError)"
proof (cases suf)
  case Absent
  then show ?thesis
    using assms
    by (simp add: parse_version_def re_match_version_text int_group_def py_int_def dec_val_Nil)
next
  case (A_build n)
  then show ?thesis
    using assms
    by (auto simp: parse_version_def re_match_version_text int_group_def py_int_def dec_val_Nil
        suffix_ok_def)
next
  case (Rc_build n)
  then show ?thesis
    using assms
    by (auto simp: parse_version_def re_match_version_text int_group_def py_int_def dec_val_Nil
        suffix_ok_def)
qed

lemma parse_version_within:
  assumes "within_limit a b c suf" "suffix_ok suf"
  shows "parse_version (version_text a b c suf) =
           Inr (dec_val a, dec_val b, dec_val c, stability_rank suf, dec_val (suffix_num suf))"
proof -
  from assms(1) have d: "digits a" "digits b" "digits c"
    and l: "length a \<le> max_str_digits" "length b \<le> max_str_digits"
      "length c \<le> max_str_digits" "length (suffix_num suf) \<le> max_str_digits"
    by (simp_all add: within_limit_def int_field_def)
  show ?thesis
    by (simp add: parse_version_text [OF d assms(2)] l)
qed

lemma parse_version_beyond:
  assumes "digits a" "digits b" "digits c" "suffix_ok suf"
    and "max_str_digits < length a \<or> max_str_digits < length b \<or> max_str_digits < length c \<or>
         max_str_digits < length (suffix_num suf)"
  shows "parse_version (version_text a b c suf) = Inl ValueError"
  using assms(5) by (auto simp: parse_version_text [OF assms(1-4)])

lemma digits_replicate: "0 < n \<Longrightarrow> is_digit c \<Longrightarrow> digits (replicate n c)"
  by (cases n) (simp_all add: digits_def list_all_iff)

lemma digit_val_nonneg: "is_digit c \<Longrightarrow> 0 \<le> digit_val c"
  by (simp add: is_digit_def digit_val_def less_eq_char_def)

lemma foldl_dec_nonneg:
  "0 \<le> acc \<Longrightarrow> list_all is_digit ds \<Longrightarrow> 0 \<le> foldl (\<lambda>acc c. 10 * acc + digit_val c) acc ds"
proof (induction ds arbitrary: acc)
  case Nil
  then show ?case by simp
next
  case (Cons d ds)
  from Cons.prems have "0 \<le> 10 * acc + digit_val d"
    using digit_val_nonneg [of d] by simp
  with Cons show ?case by simp
qed

lemma dec_val_nonneg: "digits ds \<Longrightarrow> 0 \<le> dec_val ds"
  by (simp add: digits_def dec_val_def foldl_dec_nonneg)

lemma numbered_ok: "numbered suf \<Longrightarrow> suffix_ok suf"
  by (cases suf) (auto simp: numbered_def suffix_ok_def)

lemma rank_order:
  "(stability_rank s < stability_rank s') = channel_less (channel_of s) (channel_of s')"
  "(stability_rank s = stability_rank s') = (channel_of s = channel_of s')"
  by (cases s; cases s'; simp)+

lemma lex_step: "((x::int) < y \<or> x \<le> y \<and> P) \<longleftrightarrow> (x < y \<or> x = y \<and> P)"
  by auto

lemma vkey_less:
  "((ma, mi, pa, r, n) < ((ma', mi', pa', r', n')::vkey)) \<longleftrightarrow>
     (ma < ma' \<or> (ma = ma' \<and> (mi < mi' \<or> (mi = mi' \<and>
       (pa < pa' \<or> (pa = pa' \<and> (r < r' \<or> (r = r' \<and> n < n'))))))))"
  by (simp add: lex_step)

lemma outranks_version_text:
  assumes "within_limit a b c suf" "suffix_ok suf"
    and "within_limit a' b' c' suf'" "suffix_ok suf'"
  shows "outranks (version_text a' b' c' suf') (version_text a b c suf) \<longleftrightarrow>
           older (release_of a b c suf) (release_of a' b' c' suf')"
  unfolding outranks_def parse_version_within [OF assms(1,2)] parse_version_within [OF assms(3,4)]
    release_of_def
  by (simp only: sum.case vkey_less older.simps rank_order)

lemma ex_10_0_0: "parse_version ''10.0.0'' = Inr (10, 0, 0, 2, 0)" by code_simp
lemma ex_9_9_9: "parse_version ''9.9.9'' = Inr (9, 9, 9, 2, 0)" by code_simp
lemma ex_1_2_3: "parse_version ''1.2.3'' = Inr (1, 2, 3, 2, 0)" by code_simp
lemma ex_1_2_3rc5: "parse_version ''1.2.3rc5'' = Inr (1, 2, 3, 1, 5)" by code_simp
lemma ex_1_2_3a9: "parse_version ''1.2.3a9'' = Inr (1, 2, 3, 0, 9)" by code_simp
lemma ex_2_0_0a1: "parse_version ''2.0.0a1'' = Inr (2, 0, 0, 0, 1)" by code_simp
lemma ex_1_9_9: "parse_version ''1.9.9'' = Inr (1, 9, 9, 2, 0)" by code_simp
lemma ex_1_2_3rc: "parse_version ''1.2.3rc'' = Inr (1, 2, 3, 1, 0)" by code_simp
lemma ex_1_2_3a: "parse_version ''1.2.3a'' = Inr (1, 2, 3, 0, 0)" by code_simp
lemma ex_0_0_0a1: "parse_version ''0.0.0a1'' = Inr (0, 0, 0, 0, 1)" by code_simp
lemma ex_not_a_version: "parse_version ''not-a-version'' = Inr (0, 0, 0, 1, 0)" by code_simp
lemma ex_no_match: "re_match version_rx ''not-a-version'' = None" by code_simp

lemma digits_examples:
  "digits ''0''" "digits ''1''" "digits ''2''" "digits ''3''" "digits ''5''" "digits ''9''"
  "digits ''10''"
  by (simp_all add: digits_def is_digit_def)

lemma int_field_examples:
  "int_field ''0''" "int_field ''1''" "int_field ''2''" "int_field ''3''" "int_field ''5''"
  by (simp_all add: int_field_def digits_examples max_str_digits_def)

lemma dec_val_examples:
  "dec_val ''0'' = 0" "dec_val ''1'' = 1" "dec_val ''2'' = 2" "dec_val ''3'' = 3"
  "dec_val ''5'' = 5" "dec_val ''9'' = 9"
  by (simp_all add: dec_val_def digit_val_def)

section \<open>The order of version keys\<close>

text \<open>
  C1, as stated, fails: not every valid version string is mapped to a tuple. The string
  made of 4301 digits \<open>1\<close> followed by \<open>.0.0\<close> is a valid version string and matches the
  pattern, but \<open>int(major)\<close> refuses more than 4300 digits, so \<open>parse_version\<close> raises
  \<open>ValueError\<close>.
\<close>

theorem long_major_raises:
  "digits (replicate 4301 CHR ''1'') \<and> digits ''0'' \<and> numbered Absent \<and>
   re_match version_rx (version_text (replicate 4301 CHR ''1'') ''0'' ''0'' Absent) \<noteq> None \<and>
   parse_version (version_text (replicate 4301 CHR ''1'') ''0'' ''0'' Absent) = Inl ValueError"
proof -
  have d: "digits (replicate 4301 CHR ''1'')"
    by (rule digits_replicate) (simp_all add: is_digit_def)
  have ok: "suffix_ok Absent" by (simp add: suffix_ok_def)
  have "parse_version (version_text (replicate 4301 CHR ''1'') ''0'' ''0'' Absent) = Inl ValueError"
    by (rule parse_version_beyond [OF d digits_examples(1,1) ok]) (simp add: max_str_digits_def)
  then show ?thesis
    using d re_match_version_text [OF d digits_examples(1,1) ok]
    by (simp add: digits_examples numbered_def)
qed

text \<open>
  C1, amended. \<open>parse_version\<close> maps every valid version string \<open>MAJOR.MINOR.PATCH[SUFFIX]\<close>,
  the suffix absent, \<open>a<N>\<close> or \<open>rc<N>\<close>, whose numbers have at most 4300 digits each, to
  the 5-tuple of its three numbers, the rank of its channel and its build number, and the
  comparison of two such tuples is the intended order: the fields compared as numbers,
  alpha below release candidate below stable for equal major, minor and patch, and major,
  minor and patch before the channel. In particular \<open>10.0.0\<close> is above \<open>9.9.9\<close>, \<open>1.2.3\<close>
  above \<open>1.2.3rc5\<close> above \<open>1.2.3a9\<close>, and \<open>2.0.0a1\<close> above \<open>1.9.9\<close>.
\<close>

theorem parse_version_order:
  assumes "within_limit a b c suf" "numbered suf"
    and "within_limit a' b' c' suf'" "numbered suf'"
  shows "parse_version (version_text a b c suf) =
           Inr (dec_val a, dec_val b, dec_val c, stability_rank suf, dec_val (suffix_num suf)) \<and>
         (outranks (version_text a' b' c' suf') (version_text a b c suf) \<longleftrightarrow>
            older (release_of a b c suf) (release_of a' b' c' suf')) \<and>
         outranks ''10.0.0'' ''9.9.9'' \<and>
         outranks ''1.2.3'' ''1.2.3rc5'' \<and> outranks ''1.2.3rc5'' ''1.2.3a9'' \<and>
         outranks ''2.0.0a1'' ''1.9.9''"
proof -
  have ok: "suffix_ok suf" "suffix_ok suf'"
    using assms by (simp_all add: numbered_ok)
  have "outranks ''10.0.0'' ''9.9.9''"
    by (simp add: outranks_def ex_10_0_0 ex_9_9_9)
  moreover have "outranks ''1.2.3'' ''1.2.3rc5''"
    by (simp add: outranks_def ex_1_2_3 ex_1_2_3rc5)
  moreover have "outranks ''1.2.3rc5'' ''1.2.3a9''"
    by (simp add: outranks_def ex_1_2_3rc5 ex_1_2_3a9)
  moreover have "outranks ''2.0.0a1'' ''1.9.9''"
    by (simp add: outranks_def ex_2_0_0a1 ex_1_9_9)
  ultimately show ?thesis
    using parse_version_within [OF assms(1) ok(1)]
      outranks_version_text [OF assms(1) ok(1) assms(3) ok(2)]
    by simp
qed

theorem parse_version_order_witness:
  "within_limit ''1'' ''2'' ''3'' (Rc_build ''5'') \<and> numbered (Rc_build ''5'') \<and>
   within_limit ''1'' ''2'' ''3'' Absent \<and> numbered Absent \<and>
   parse_version (version_text ''1'' ''2'' ''3'' (Rc_build ''5'')) = Inr (1, 2, 3, 1, 5) \<and>
   outranks (version_text ''1'' ''2'' ''3'' Absent) (version_text ''1'' ''2'' ''3'' (Rc_build ''5''))"
proof -
  have n: "numbered (Rc_build ''5'')" "numbered Absent"
    by (simp_all add: numbered_def digits_examples)
  have w: "within_limit ''1'' ''2'' ''3'' (Rc_build ''5'')" "within_limit ''1'' ''2'' ''3'' Absent"
    by (simp_all add: within_limit_def int_field_examples max_str_digits_def)
  show ?thesis
    using parse_version_order [OF w(1) n(1) w(2) n(2)]
    by (simp add: w n release_of_def dec_val_examples dec_val_Nil)
qed

section \<open>Bare channel letters\<close>

text \<open>
  C9, as stated, fails: not every version string with a bare channel letter is parsed.
  The string made of 4301 digits \<open>0\<close> followed by \<open>.0.0rc\<close> matches the pattern, but
  \<open>int(major)\<close> refuses more than 4300 digits, so \<open>parse_version\<close> raises \<open>ValueError\<close>
  instead of returning \<open>(0, 0, 0, 1, 0)\<close>.
\<close>

theorem long_bare_rc_raises:
  "digits (replicate 4301 CHR ''0'') \<and> digits ''0'' \<and>
   re_match version_rx (version_text (replicate 4301 CHR ''0'') ''0'' ''0'' (Rc_build [])) \<noteq> None \<and>
   parse_version (version_text (replicate 4301 CHR ''0'') ''0'' ''0'' (Rc_build [])) =
     Inl ValueError"
proof -
  have d: "digits (replicate 4301 CHR ''0'')"
    by (rule digits_replicate) (simp_all add: is_digit_def)
  have ok: "suffix_ok (Rc_build [])" by (simp add: suffix_ok_def)
  have "parse_version (version_text (replicate 4301 CHR ''0'') ''0'' ''0'' (Rc_build [])) =
          Inl ValueError"
    by (rule parse_version_beyond [OF d digits_examples(1,1) ok]) (simp add: max_str_digits_def)
  then show ?thesis
    using d re_match_version_text [OF d digits_examples(1,1) ok]
    by (simp add: digits_examples)
qed

text \<open>
  C9, amended. A version string whose suffix is a bare channel letter, \<open>a\<close> or \<open>rc\<close> with no
  number after it, and whose major, minor and patch have at most 4300 digits each, matches
  the pattern and is parsed with build number 0, for instance \<open>1.2.3rc\<close> as
  \<open>(1, 2, 3, 1, 0)\<close>; it is therefore below every numbered build \<open>N \<ge> 1\<close>, \<open>N\<close> of at most
  4300 digits, of the same version and channel.
\<close>

theorem bare_channel_letter:
  assumes "int_field a" "int_field b" "int_field c"
  shows "re_match version_rx (version_text a b c (A_build [])) \<noteq> None \<and>
         re_match version_rx (version_text a b c (Rc_build [])) \<noteq> None \<and>
         parse_version (version_text a b c (A_build [])) = Inr (dec_val a, dec_val b, dec_val c, 0, 0) \<and>
         parse_version (version_text a b c (Rc_build [])) = Inr (dec_val a, dec_val b, dec_val c, 1, 0) \<and>
         parse_version ''1.2.3rc'' = Inr (1, 2, 3, 1, 0) \<and>
         parse_version ''1.2.3a'' = Inr (1, 2, 3, 0, 0) \<and>
         (int_field n \<and> 1 \<le> dec_val n \<longrightarrow>
            outranks (version_text a b c (A_build n)) (version_text a b c (A_build [])) \<and>
            outranks (version_text a b c (Rc_build n)) (version_text a b c (Rc_build [])))"
proof -
  have d: "digits a" "digits b" "digits c"
    using assms by (simp_all add: int_field_def)
  have bare: "suffix_ok (A_build [])" "suffix_ok (Rc_build [])"
    by (simp_all add: suffix_ok_def)
  have w: "within_limit a b c (A_build [])" "within_limit a b c (Rc_build [])"
    using assms by (simp_all add: within_limit_def)
  have above: "outranks (version_text a b c (A_build n)) (version_text a b c (A_build [])) \<and>
               outranks (version_text a b c (Rc_build n)) (version_text a b c (Rc_build []))"
    if n: "int_field n" "1 \<le> dec_val n"
  proof -
    have ok: "suffix_ok (A_build n)" "suffix_ok (Rc_build n)"
      using n by (simp_all add: suffix_ok_def int_field_def)
    have wn: "within_limit a b c (A_build n)" "within_limit a b c (Rc_build n)"
      using assms n(1) by (simp_all add: within_limit_def int_field_def)
    show ?thesis
      using n(2)
      by (simp add: outranks_version_text [OF w(1) bare(1) wn(1) ok(1)]
          outranks_version_text [OF w(2) bare(2) wn(2) ok(2)] release_of_def dec_val_Nil)
  qed
  show ?thesis
    using above
    by (simp add: re_match_version_text [OF d bare(1)] re_match_version_text [OF d bare(2)]
        parse_version_within [OF w(1) bare(1)] parse_version_within [OF w(2) bare(2)]
        dec_val_Nil ex_1_2_3rc ex_1_2_3a)
qed

theorem bare_channel_letter_witness:
  "int_field ''1'' \<and> int_field ''2'' \<and> int_field ''3'' \<and> int_field ''5'' \<and> 1 \<le> dec_val ''5'' \<and>
   parse_version (version_text ''1'' ''2'' ''3'' (Rc_build [])) = Inr (1, 2, 3, 1, 0) \<and>
   outranks (version_text ''1'' ''2'' ''3'' (Rc_build ''5''))
            (version_text ''1'' ''2'' ''3'' (Rc_build []))"
  using bare_channel_letter [OF int_field_examples(2,3,4), of "''5''"]
  by (simp add: int_field_examples dec_val_examples)

section \<open>The sentinel and alpha releases\<close>

lemma sentinel_above_alpha:
  assumes "re_match version_rx u = None" "digits a" "digits b" "digits c" "digits n"
  shows "outranks u (version_text a b c (A_build n)) \<longleftrightarrow>
           length a \<le> max_str_digits \<and> length b \<le> max_str_digits \<and>
           length c \<le> max_str_digits \<and> length n \<le> max_str_digits \<and>
           dec_val a = 0 \<and> dec_val b = 0 \<and> dec_val c = 0"
proof -
  have ok: "suffix_ok (A_build n)"
    using assms(5) by (simp add: suffix_ok_def)
  have u: "parse_version u = Inr (0, 0, 0, 1, 0)"
    using assms(1) by (simp add: parse_version_def sentinel_def)
  show ?thesis
    unfolding outranks_def u parse_version_text [OF assms(2-4) ok]
    using dec_val_nonneg [OF assms(2)] dec_val_nonneg [OF assms(3)] dec_val_nonneg [OF assms(4)]
    by (auto simp: vkey_less)
qed

text \<open>
  C3, as stated, fails: no unparseable string has a sentinel tuple above the tuple of a
  correctly parsed alpha version whose major, minor and patch are higher than the
  sentinel's \<open>0.0.0\<close>.
\<close>

theorem sentinel_not_above_higher_alpha:
  "\<not> (\<exists>u a b c n. re_match version_rx u = None \<and>
         digits a \<and> digits b \<and> digits c \<and> digits n \<and>
         (0, 0, 0) < (dec_val a, dec_val b, dec_val c) \<and>
         outranks u (version_text a b c (A_build n)))"
  by (auto simp: sentinel_above_alpha)

text \<open>
  C3, amended. The sentinel of an unparseable string is above the tuple of a correctly
  parsed alpha version, one whose numbers have at most 4300 digits each, exactly when the
  major, minor and patch of that version are all 0; so \<open>not-a-version\<close> is above
  \<open>0.0.0a1\<close>, and every such alpha release of a higher version is above the sentinel.
\<close>

theorem sentinel_above_alpha_iff:
  assumes "re_match version_rx u = None" "int_field a" "int_field b" "int_field c" "int_field n"
  shows "(outranks u (version_text a b c (A_build n)) \<longleftrightarrow>
            (dec_val a, dec_val b, dec_val c) = (0, 0, 0)) \<and>
         ((0, 0, 0) < (dec_val a, dec_val b, dec_val c) \<longrightarrow>
            outranks (version_text a b c (A_build n)) u) \<and>
         outranks ''not-a-version'' ''0.0.0a1''"
proof -
  have d: "digits a" "digits b" "digits c" "digits n"
    and l: "length a \<le> max_str_digits" "length b \<le> max_str_digits"
      "length c \<le> max_str_digits" "length n \<le> max_str_digits"
    using assms(2-5) by (simp_all add: int_field_def)
  have ok: "suffix_ok (A_build n)"
    using d(4) by (simp add: suffix_ok_def)
  have w: "within_limit a b c (A_build n)"
    using assms(2-5) by (simp add: within_limit_def int_field_def)
  have u: "parse_version u = Inr (0, 0, 0, 1, 0)"
    using assms(1) by (simp add: parse_version_def sentinel_def)
  have "outranks (version_text a b c (A_build n)) u"
    if "(0, 0, 0) < (dec_val a, dec_val b, dec_val c)"
    using that unfolding outranks_def u parse_version_within [OF w ok]
    by (auto simp: vkey_less)
  moreover have "outranks ''not-a-version'' ''0.0.0a1''"
    by (simp add: outranks_def ex_not_a_version ex_0_0_0a1)
  ultimately show ?thesis
    using sentinel_above_alpha [OF assms(1) d] l by simp
qed

theorem sentinel_above_alpha_iff_witness:
  "re_match version_rx ''not-a-version'' = None \<and> int_field ''0'' \<and> int_field ''1'' \<and>
   outranks ''not-a-version'' (version_text ''0'' ''0'' ''0'' (A_build ''1'')) \<and>
   (0, 0, 0) < (dec_val ''1'', dec_val ''0'', dec_val ''0'') \<and>
   outranks (version_text ''1'' ''0'' ''0'' (A_build ''1'')) ''not-a-version''"
  using sentinel_above_alpha_iff [OF ex_no_match int_field_examples(1,1,1,2)]
    sentinel_above_alpha_iff [OF ex_no_match int_field_examples(2,1,1,2)]
  by (simp add: ex_no_match int_field_examples dec_val_examples)

section \<open>The matcher and the grammar\<close>

lemma in_ms_Seq:
  "y \<in> set (ms (Seq r1 r2) st) \<longleftrightarrow> (\<exists>x \<in> set (ms r1 st). y \<in> set (ms r2 x))"
  by auto

lemma take_takeWhile_all:
  "k \<le> length (takeWhile P s) \<Longrightarrow> list_all P (take k s)"
proof -
  assume k: "k \<le> length (takeWhile P s)"
  then have "take k s = take k (takeWhile P s)"
    by (metis append_eq_conv_conj min.absorb2 take_take takeWhile_dropWhile_id take_append
        append_Nil2 diff_is_0_eq take_0)
  then show ?thesis
    by (metis list_all_iff set_takeWhileD in_set_takeD)
qed

lemma matches_Seq_iff:
  "matches (Seq r1 r2) w rest \<longleftrightarrow>
     (\<exists>k \<le> length w. matches r1 (take k w) (drop k w @ rest) \<and> matches r2 (drop k w) rest)"
  by (auto simp: list_ex_iff less_Suc_eq_le simp del: upt_Suc)

lemma ms_sound:
  "(s', g') \<in> set (ms r (s, g)) \<Longrightarrow> \<exists>w. s = w @ s' \<and> matches r w s'"
proof (induction r arbitrary: s g s' g')
  case Eps
  then show ?case by simp
next
  case (One c)
  then show ?case by (cases s) (auto split: if_splits)
next
  case (Many c)
  then obtain k where k: "1 \<le> k" "k \<le> length (takeWhile (in_class c) s)" "s' = drop k s"
    by auto
  have "k \<le> length s"
    using k(2) length_takeWhile_le [of "in_class c" s] by linarith
  with k(1) have "take k s \<noteq> []" by (cases s) auto
  with k(3) take_takeWhile_all [OF k(2)] show ?case
    by (intro exI [of _ "take k s"]) simp
next
  case Eos
  then show ?case by (auto split: if_splits)
next
  case (Seq r1 r2)
  from Seq.prems obtain s1 g1 where 1: "(s1, g1) \<in> set (ms r1 (s, g))"
    and 2: "(s', g') \<in> set (ms r2 (s1, g1))"
    by auto
  from Seq.IH(1) [OF 1] obtain u where u: "s = u @ s1" "matches r1 u s1" by blast
  from Seq.IH(2) [OF 2] obtain v where v: "s1 = v @ s'" "matches r2 v s'" by blast
  have "matches (Seq r1 r2) (u @ v) s'"
    unfolding matches_Seq_iff using u(2) v by (intro exI [of _ "length u"]) simp
  with u(1) v(1) show ?case by auto
next
  case (Alt r1 r2)
  then show ?case by fastforce
next
  case (Opt r)
  then show ?case by fastforce
next
  case (Grp n r)
  then show ?case by fastforce
qed

lemma ms_complete:
  "matches r w rest \<Longrightarrow> \<exists>g'. (rest, g') \<in> set (ms r (w @ rest, g))"
proof (induction r arbitrary: w rest g)
  case Eps
  then show ?case by simp
next
  case (One c)
  then show ?case by (auto split: list.splits)
next
  case (Many c)
  then have w: "w \<noteq> []" "list_all (in_class c) w" by auto
  have "length w \<le> length (takeWhile (in_class c) (w @ rest))"
    using w(2) by (simp add: takeWhile_append2 list_all_iff)
  moreover have "1 \<le> length w" using w(1) by (cases w) auto
  ultimately have "length w \<in> set (rev [1 ..< Suc (length (takeWhile (in_class c) (w @ rest)))])"
    by auto
  then have "(\<lambda>k. (drop k (w @ rest), g)) (length w)
      \<in> (\<lambda>k. (drop k (w @ rest), g)) ` set (rev [1 ..< Suc (length (takeWhile (in_class c) (w @ rest)))])"
    by (rule imageI)
  then have "(rest, g) \<in> set (ms (Many c) (w @ rest, g))"
    by simp
  then show ?case by blast
next
  case Eos
  then show ?case by auto
next
  case (Seq r1 r2)
  then obtain k where k: "k \<le> length w" "matches r1 (take k w) (drop k w @ rest)"
    "matches r2 (drop k w) rest"
    unfolding matches_Seq_iff by blast
  from Seq.IH(1) [OF k(2), of g] obtain g1
    where 1: "(drop k w @ rest, g1) \<in> set (ms r1 (w @ rest, g))"
    by (metis append_assoc append_take_drop_id)
  from Seq.IH(2) [OF k(3), of g1] obtain g2
    where 2: "(rest, g2) \<in> set (ms r2 (drop k w @ rest, g1))" by blast
  from 1 2 show ?case by (auto intro!: exI [of _ g2] bexI [of _ "(drop k w @ rest, g1)"])
next
  case (Alt r1 r2)
  then show ?case by fastforce
next
  case (Opt r)
  then show ?case by fastforce
next
  case (Grp n r)
  from Grp.prems have "matches r w rest" by simp
  from Grp.IH [OF this, of g] obtain g' where "(rest, g') \<in> set (ms r (w @ rest, g))" by blast
  then show ?case by force
qed

lemma in_grammar_split:
  "in_grammar r v \<longleftrightarrow> (\<exists>k \<le> length v. matches r (take k v) (drop k v))"
  by (auto simp: in_grammar_def list_ex_iff less_Suc_eq_le simp del: upt_Suc)

lemma in_grammar_iff: "in_grammar r v \<longleftrightarrow> re_match r v \<noteq> None"
proof
  assume "in_grammar r v"
  then obtain k where "matches r (take k v) (drop k v)"
    by (auto simp: in_grammar_split)
  from ms_complete [OF this, of Map.empty] show "re_match r v \<noteq> None"
    by (auto simp: re_match_def first_match_def split: list.splits)
next
  assume "re_match r v \<noteq> None"
  then obtain s' g' where "(s', g') \<in> set (ms r (v, Map.empty))"
    by (cases "ms r (v, Map.empty)") (auto simp: re_match_def first_match_def)
  from ms_sound [OF this] obtain w where w: "v = w @ s'" "matches r w s'" by blast
  then have "matches r (take (length w) v) (drop (length w) v)" by simp
  moreover have "length w \<le> length v" using w(1) by simp
  ultimately show "in_grammar r v"
    unfolding in_grammar_split by blast
qed

lemma not_a_version_outside: "\<not> in_grammar version_rx ''not-a-version''"
  by (simp add: in_grammar_iff ex_no_match)

section \<open>The run after a successful request\<close>

lemma run_fetched:
  assumes "urlopen (listing_url (platform a) (target a)) = Inr data"
    and "candidates_of (key_rx (prefix (platform a) (target a))) data = Inr cs"
  shows "run urlopen a =
           (fetching_line a @
            showing_line a (length (newest_of (count a) (sort_reverse cs))) @
            url_lines (newest_of (count a) (sort_reverse cs)), None)"
  using assms
  by (simp add: run_def listing_url_def fetching_line_def showing_line_def Let_def)

lemma run_failed:
  assumes "urlopen (listing_url (platform a) (target a)) = Inl e"
  shows "run urlopen a = (fetching_line a, Some e)"
  using assms by (simp add: run_def listing_url_def fetching_line_def Let_def)

section \<open>The sorter\<close>

lemma sorted_rev_sort_reverse: "sorted (rev (sort_reverse cs))"
  by (simp add: sort_reverse_def)

lemma mset_sort_reverse: "mset (sort_reverse cs) = mset cs"
  by (simp add: sort_reverse_def)

lemma set_sort_reverse: "set (sort_reverse cs) = set cs"
  by (simp add: sort_reverse_def)

lemma length_sort_reverse: "length (sort_reverse cs) = length cs"
  by (simp add: sort_reverse_def)

lemma before_in_set: "before xs a b \<Longrightarrow> a \<in> set xs \<and> b \<in> set xs"
  by (induction xs) auto

lemma before_descending:
  fixes xs :: "'a::linorder list"
  shows "sorted (rev xs) \<Longrightarrow> before xs a b \<Longrightarrow> b \<le> a"
  by (induction xs) (auto simp: sorted_append)

lemma before_total: "a \<in> set xs \<Longrightarrow> b \<in> set xs \<Longrightarrow> a \<noteq> b \<Longrightarrow> before xs a b \<or> before xs b a"
  by (induction xs) auto

lemma prod_le_fst:
  fixes a b :: "'a::linorder \<times> 'b::linorder"
  shows "b \<le> a \<Longrightarrow> fst b \<le> fst a"
  by (cases a; cases b) auto

lemma prod_le_snd:
  fixes a b :: "'a::linorder \<times> 'b::linorder"
  shows "b \<le> a \<Longrightarrow> fst a = fst b \<Longrightarrow> snd b \<le> snd a"
  by (cases a; cases b) auto

lemma sort_reverse_perm: "mset cs = mset cs' \<Longrightarrow> sort_reverse cs = sort_reverse cs'"
proof -
  assume "mset cs = mset cs'"
  then have "mset (rev cs') = mset (sort (rev cs))" by simp
  then have "sort (rev cs') = sort (rev cs)"
    by (metis properties_for_sort sorted_sort)
  then show ?thesis by (simp add: sort_reverse_def)
qed

lemma tie_candidates:
  "candidates_of (key_rx (prefix ''linux'' ''gfx1151'')) tie_listing = Inr [tie_first, tie_second]"
  by code_simp

lemma tie_sorted: "sort_reverse [tie_first, tie_second] = [tie_first, tie_second]"
  by code_simp

lemma tie_sorted': "sort_reverse [tie_second, tie_first] = [tie_first, tie_second]"
  by code_simp

lemma tie_facts:
  "fst tie_first = fst tie_second" "snd tie_first \<noteq> snd tie_second"
  "snd tie_second < snd tie_first"
  by (simp_all add: tie_first_def tie_second_def)

text \<open>
  C4, as stated, fails. The listing \<open>tie_listing\<close> gives two candidates with the same
  version key and different key strings; the sorted list keeps them in the order of the
  input, it does not reverse them.
\<close>

theorem ties_not_reversed:
  "candidates_of (key_rx (prefix ''linux'' ''gfx1151'')) tie_listing = Inr [tie_first, tie_second] \<and>
   fst tie_first = fst tie_second \<and> snd tie_first \<noteq> snd tie_second \<and>
   before [tie_first, tie_second] tie_first tie_second \<and>
   sort_reverse [tie_first, tie_second] = [tie_first, tie_second] \<and>
   \<not> before (sort_reverse [tie_first, tie_second]) tie_second tie_first"
  using tie_facts(2) by (auto simp: tie_candidates tie_sorted tie_facts(1))

text \<open>
  C4, amended. The sorted list is a rearrangement of the candidates in which the version
  keys descend, and two candidates with the same version key and different key strings
  stand in the descending order of their key strings, whatever their order in the input.
\<close>

theorem sort_reverse_descending:
  "mset (sort_reverse cs) = mset cs \<and>
   (before (sort_reverse cs) x y \<longrightarrow> fst y \<le> fst x) \<and>
   (x \<in> set cs \<and> y \<in> set cs \<and> fst x = fst y \<and> snd x \<noteq> snd y \<longrightarrow>
      (before (sort_reverse cs) x y \<longleftrightarrow> snd y < snd x))"
proof -
  have desc: "b \<le> a" if "before (sort_reverse cs) a b" for a b
    using before_descending [OF sorted_rev_sort_reverse that] .
  have 1: "fst y \<le> fst x" if "before (sort_reverse cs) x y"
    using desc [OF that] by (rule prod_le_fst)
  have 2: "before (sort_reverse cs) x y \<longleftrightarrow> snd y < snd x"
    if xy: "x \<in> set cs" "y \<in> set cs" "fst x = fst y" "snd x \<noteq> snd y"
  proof
    assume "before (sort_reverse cs) x y"
    from prod_le_snd [OF desc [OF this] xy(3)] xy(4) show "snd y < snd x"
      by simp
  next
    assume lt: "snd y < snd x"
    from xy have "x \<noteq> y" by auto
    with xy(1,2) have "before (sort_reverse cs) x y \<or> before (sort_reverse cs) y x"
      by (intro before_total) (simp_all add: set_sort_reverse)
    moreover have False if "before (sort_reverse cs) y x"
      using prod_le_snd [OF desc [OF that]] xy(3) lt by simp
    ultimately show "before (sort_reverse cs) x y" by blast
  qed
  from 1 2 show ?thesis by (simp add: mset_sort_reverse)
qed

theorem sort_reverse_descending_witness:
  "tie_first \<in> set [tie_second, tie_first] \<and> tie_second \<in> set [tie_second, tie_first] \<and>
   fst tie_first = fst tie_second \<and> snd tie_first \<noteq> snd tie_second \<and>
   snd tie_second < snd tie_first \<and>
   before (sort_reverse [tie_second, tie_first]) tie_first tie_second"
  using sort_reverse_descending [of "[tie_second, tie_first]" tie_first tie_second] tie_facts
  by simp

section \<open>The sample listing\<close>

lemma sample_keys:
  "findall xml_key_rx sample_listing =
     [''therock-dist-linux-gfx1151-7.0.0.tar.gz'', ''therock-dist-linux-gfx1151-7.1.0a1.tar.gz'',
      ''therock-dist-linux-gfx1151-7.0.1rc2.tar.gz'', ''therock-dist-linux-gfx1151-7-README.txt'']"
  by code_simp

lemma sample_collect:
  "collect (key_rx (prefix ''linux'' ''gfx1151''))
     [''therock-dist-linux-gfx1151-7.0.0.tar.gz'', ''therock-dist-linux-gfx1151-7.1.0a1.tar.gz'',
      ''therock-dist-linux-gfx1151-7.0.1rc2.tar.gz'', ''therock-dist-linux-gfx1151-7-README.txt''] =
   Inr [c_7_0_0, c_7_1_0a1, c_7_0_1rc2]"
  by code_simp

lemma sample_candidates:
  "candidates_of (key_rx (prefix ''linux'' ''gfx1151'')) sample_listing =
     Inr [c_7_0_0, c_7_1_0a1, c_7_0_1rc2]"
  by (simp only: candidates_of_def sample_keys sample_collect)

lemma sample_sorted:
  "sort_reverse [c_7_0_0, c_7_1_0a1, c_7_0_1rc2] = [c_7_1_0a1, c_7_0_1rc2, c_7_0_0]"
  by code_simp

lemma parse_args_default:
  "parse_args default_argv = Inr (linux_gfx1151 5 False)"
  "parse_args (default_argv\<lparr>given_quiet := True\<rparr>) = Inr (linux_gfx1151 5 True)"
  "parse_args (default_argv\<lparr>given_count := Some n\<rparr>) = Inr (linux_gfx1151 n False)"
  "parse_args (default_argv\<lparr>given_count := Some n, given_quiet := True\<rparr>) = Inr (linux_gfx1151 n True)"
  by (simp_all add: parse_args_def default_argv_def linux_gfx1151_def)

lemma linux_gfx1151_sel:
  "platform (linux_gfx1151 n q) = ''linux''" "target (linux_gfx1151 n q) = ''gfx1151''"
  "count (linux_gfx1151 n q) = n" "quiet (linux_gfx1151 n q) = q"
  by (simp_all add: linux_gfx1151_def)

lemma sample_run:
  "run (\<lambda>u. Inr sample_listing) (linux_gfx1151 5 True) =
     ([S3_BASE @ ''therock-dist-linux-gfx1151-7.1.0a1.tar.gz'',
       S3_BASE @ ''therock-dist-linux-gfx1151-7.0.1rc2.tar.gz'',
       S3_BASE @ ''therock-dist-linux-gfx1151-7.0.0.tar.gz''], None)"
proof -
  have "run (\<lambda>u. Inr sample_listing) (linux_gfx1151 5 True) =
          (fetching_line (linux_gfx1151 5 True) @
           showing_line (linux_gfx1151 5 True)
             (length (newest_of (count (linux_gfx1151 5 True))
                (sort_reverse [c_7_0_0, c_7_1_0a1, c_7_0_1rc2]))) @
           url_lines (newest_of (count (linux_gfx1151 5 True))
             (sort_reverse [c_7_0_0, c_7_1_0a1, c_7_0_1rc2])), None)"
  proof (rule run_fetched)
    show "(\<lambda>u. Inr sample_listing)
            (listing_url (platform (linux_gfx1151 5 True)) (target (linux_gfx1151 5 True))) =
          Inr sample_listing"
      by simp
    show "candidates_of
            (key_rx (prefix (platform (linux_gfx1151 5 True)) (target (linux_gfx1151 5 True))))
            sample_listing = Inr [c_7_0_0, c_7_1_0a1, c_7_0_1rc2]"
      unfolding linux_gfx1151_sel by (rule sample_candidates)
  qed
  then show ?thesis
    unfolding sample_sorted linux_gfx1151_sel
    by (simp add: linux_gfx1151_sel fetching_line_def showing_line_def
        newest_of_def slice_to_def url_lines_def c_7_0_0_def c_7_1_0a1_def c_7_0_1rc2_def)
qed

text \<open>
  C5. From the sample listing, which holds the keys for \<open>7.0.0\<close>, \<open>7.1.0a1\<close> and
  \<open>7.0.1rc2\<close> and a key of another form, the extractor with the default platform and target
  keeps exactly the three keys of the expected form, and the sorter puts them in the order
  \<open>7.1.0a1\<close>, \<open>7.0.1rc2\<close>, \<open>7.0.0\<close>, in whatever order the listing holds them; these are
  the addresses a run with the default arguments prints.
\<close>

theorem sample_listing_sorted:
  "findall xml_key_rx sample_listing =
     [''therock-dist-linux-gfx1151-7.0.0.tar.gz'', ''therock-dist-linux-gfx1151-7.1.0a1.tar.gz'',
      ''therock-dist-linux-gfx1151-7.0.1rc2.tar.gz'', ''therock-dist-linux-gfx1151-7-README.txt''] \<and>
   candidates_of (key_rx (prefix ''linux'' ''gfx1151'')) sample_listing =
     Inr [c_7_0_0, c_7_1_0a1, c_7_0_1rc2] \<and>
   (mset cs = mset [c_7_0_0, c_7_1_0a1, c_7_0_1rc2] \<longrightarrow>
      sort_reverse cs = [c_7_1_0a1, c_7_0_1rc2, c_7_0_0]) \<and>
   fst c_7_0_0 < fst c_7_0_1rc2 \<and> fst c_7_0_1rc2 < fst c_7_1_0a1 \<and>
   main (\<lambda>u. Inr sample_listing) (default_argv\<lparr>given_quiet := True\<rparr>) =
     ([S3_BASE @ ''therock-dist-linux-gfx1151-7.1.0a1.tar.gz'',
       S3_BASE @ ''therock-dist-linux-gfx1151-7.0.1rc2.tar.gz'',
       S3_BASE @ ''therock-dist-linux-gfx1151-7.0.0.tar.gz''], None)"
proof -
  have "sort_reverse cs = [c_7_1_0a1, c_7_0_1rc2, c_7_0_0]"
    if "mset cs = mset [c_7_0_0, c_7_1_0a1, c_7_0_1rc2]"
    using sort_reverse_perm [OF that] by (simp only: sample_sorted)
  moreover have "fst c_7_0_0 < fst c_7_0_1rc2" "fst c_7_0_1rc2 < fst c_7_1_0a1"
    by (simp_all add: c_7_0_0_def c_7_0_1rc2_def c_7_1_0a1_def)
  ultimately show ?thesis
    by (simp add: sample_keys sample_candidates main_def parse_args_default sample_run)
qed

theorem sample_listing_sorted_witness:
  "mset [c_7_0_1rc2, c_7_0_0, c_7_1_0a1] = mset [c_7_0_0, c_7_1_0a1, c_7_0_1rc2] \<and>
   sort_reverse [c_7_0_1rc2, c_7_0_0, c_7_1_0a1] = [c_7_1_0a1, c_7_0_1rc2, c_7_0_0]"
  using sample_listing_sorted [of "[c_7_0_1rc2, c_7_0_0, c_7_1_0a1]"]
  by (simp add: add.commute)

section \<open>The reporter\<close>


lemma slice_to_neg: "n < 0 \<Longrightarrow> slice_to n xs = rev (drop (nat (- n)) (rev xs))"
proof -
  assume n: "n < 0"
  then have "nat (int (length xs) + n) = length xs - nat (- n)" by linarith
  with n show ?thesis by (simp add: slice_to_def drop_rev)
qed


lemma newest_of_neg: "n < 0 \<Longrightarrow> newest_of n cs = rev (drop (nat (- n)) (rev cs))"
  by (simp add: newest_of_def slice_to_neg)


lemma five_candidates:
  "candidates_of (key_rx (prefix ''linux'' ''gfx1151'')) five_listing =
     Inr [c_7_0_0, c_7_1_0a2, c_7_0_1rc2, c_7_1_0a10, c_7_0_1]"
  by code_simp

lemma five_sorted:
  "sort_reverse [c_7_0_0, c_7_1_0a2, c_7_0_1rc2, c_7_1_0a10, c_7_0_1] =
     [c_7_1_0a10, c_7_1_0a2, c_7_0_1, c_7_0_1rc2, c_7_0_0]"
  by code_simp

lemma five_fetched:
  "(\<lambda>u. Inr five_listing) (listing_url (platform (linux_gfx1151 n q)) (target (linux_gfx1151 n q))) =
     Inr five_listing"
  "candidates_of (key_rx (prefix (platform (linux_gfx1151 n q)) (target (linux_gfx1151 n q))))
     five_listing = Inr [c_7_0_0, c_7_1_0a2, c_7_0_1rc2, c_7_1_0a10, c_7_0_1]"
  unfolding linux_gfx1151_sel by (simp_all only: five_candidates)



text \<open>
  C10. With a negative count and at least one candidate, the value is accepted and the
  reporter prints the sorted candidates without the last \<open>|count|\<close> of them: the slice
  \<open>candidates[:count]\<close> drops entries from the end. With count \<open>-1\<close> and five candidates,
  four addresses are printed.
\<close>

theorem reporter_negative_count:
  assumes "urlopen (listing_url (platform a) (target a)) = Inr data"
    and "candidates_of (key_rx (prefix (platform a) (target a))) data = Inr cs"
    and "count a < 0" and "cs \<noteq> []"
  shows "run urlopen a =
           (fetching_line a @ showing_line a (length cs - nat (- count a)) @
            map (\<lambda>c. S3_BASE @ snd c) (rev (drop (nat (- count a)) (rev (sort_reverse cs)))), None) \<and>
         parse_args (default_argv\<lparr>given_count := Some (count a)\<rparr>) =
           Inr \<lparr>platform = ''linux'', target = ''gfx1151'', count = count a, quiet = False\<rparr>"
  using run_fetched [of urlopen a data cs, OF assms(1,2)] assms(3)
  by (simp add: newest_of_neg url_lines_def length_sort_reverse parse_args_def default_argv_def)

theorem reporter_negative_count_witness:
  "(- 1::int) < 0 \<and> [c_7_0_0, c_7_1_0a2, c_7_0_1rc2, c_7_1_0a10, c_7_0_1] \<noteq> [] \<and>
   run (\<lambda>u. Inr five_listing) (linux_gfx1151 (- 1) True) =
     ([S3_BASE @ ''therock-dist-linux-gfx1151-7.1.0a10.tar.gz'',
       S3_BASE @ ''therock-dist-linux-gfx1151-7.1.0a2.tar.gz'',
       S3_BASE @ ''therock-dist-linux-gfx1151-7.0.1.tar.gz'',
       S3_BASE @ ''therock-dist-linux-gfx1151-7.0.1rc2.tar.gz''], None)"
  using reporter_negative_count [of "\<lambda>u. Inr five_listing" "linux_gfx1151 (- 1) True"
      five_listing "[c_7_0_0, c_7_1_0a2, c_7_0_1rc2, c_7_1_0a10, c_7_0_1]", OF five_fetched]
  unfolding five_sorted linux_gfx1151_sel
  by (simp add: fetching_line_def showing_line_def linux_gfx1151_sel
      c_7_1_0a10_def c_7_1_0a2_def c_7_0_1_def c_7_0_1rc2_def)

section \<open>What the argument parser and \<open>urlopen\<close> accept\<close>

lemma request_url_no_hash: "CHR ''#'' \<notin> set url \<Longrightarrow> request_url url = url"
  by (simp add: request_url_def)

lemma plain_char_facts:
  "plain_char c \<Longrightarrow> \<not> refused_char c \<and> \<not> CHR 0x7F < c \<and> c \<noteq> CHR ''#''"
  by (auto simp: plain_char_def refused_char_def)

lemma urlopen_via_plain:
  assumes "list_all plain_char url"
  shows "urlopen_via net url = net url"
proof -
  from assms have "CHR ''#'' \<notin> set url" "\<not> list_ex refused_char url"
    "\<not> list_ex (\<lambda>c. CHR 0x7F < c) url"
    using plain_char_facts by (auto simp: list_all_iff list_ex_iff)
  then show ?thesis
    by (simp add: urlopen_via_def request_url_no_hash)
qed

lemma urlopen_via_refused:
  "CHR ''#'' \<notin> set url \<Longrightarrow> list_ex refused_char url \<Longrightarrow> urlopen_via net url = Inl InvalidURL"
  by (simp add: urlopen_via_def request_url_no_hash)

lemma s3_target_cases: "s3_target t = t \<or> s3_target t = t @ ''-dgpu'' \<or> s3_target t = t @ ''-all''"
  by (simp add: s3_target_def)

lemma listing_url_plain:
  assumes "p = ''linux'' \<or> p = ''windows''" "plain_target t"
  shows "list_all plain_char (listing_url p t)"
proof -
  have base: "list_all plain_char (S3_BASE @ ''?prefix=therock-dist-'')"
    by (simp add: S3_BASE_def plain_char_def)
  have p: "list_all plain_char p"
    using assms(1) by (auto simp: plain_char_def)
  have t: "list_all plain_char (s3_target t)"
    using assms(2) s3_target_cases [of t] by (auto simp: plain_target_def plain_char_def)
  have "list_all plain_char ''-''" "list_all plain_char ''-7''"
    by (simp_all add: plain_char_def)
  with base p t show ?thesis
    by (simp add: listing_url_def prefix_def)
qed

lemma listing_url_refused:
  assumes "p = ''linux'' \<or> p = ''windows''" "CHR ''#'' \<notin> set t" "list_ex refused_char t"
  shows "CHR ''#'' \<notin> set (listing_url p t) \<and> list_ex refused_char (listing_url p t)"
proof -
  have "CHR ''#'' \<notin> set (s3_target t)" "list_ex refused_char (s3_target t)"
    using assms(2,3) s3_target_cases [of t] by (auto simp: list_ex_iff)
  moreover have "CHR ''#'' \<notin> set p"
    using assms(1) by auto
  ultimately show ?thesis
    by (auto simp: listing_url_def prefix_def S3_BASE_def list_ex_iff)
qed

lemma no_key_no_candidate:
  "findall xml_key_rx data = [] \<Longrightarrow> candidates_of pat data = Inr []"
  by (simp add: candidates_of_def)

lemma str_nat_0: "str_nat 0 = ''0''"
  by code_simp

lemma empty_listing_keys: "findall xml_key_rx empty_listing = []"
  by code_simp

lemma space_target: "CHR ''#'' \<notin> set ''no such target''" "list_ex refused_char ''no such target''"
  by (simp_all add: refused_char_def)

lemma plain_gfx9999: "plain_target ''gfx9999''"
  by (simp add: plain_target_def plain_char_def)

text \<open>
  C8, as stated, fails. The platform is checked against \<open>choices\<close>: with the platform
  \<open>macos\<close> the program ends in the argument parser with exit status 2, nothing is printed
  and no request is made. And a target is not always turned into a query: with the target
  \<open>no such target\<close> the status line is printed and \<open>urlopen\<close> raises \<open>InvalidURL\<close> before
  anything is sent, whatever the bucket would answer.
\<close>

theorem platform_outside_choices_rejected:
  "main (\<lambda>u. Inr sample_listing) (default_argv\<lparr>given_platform := Some ''macos''\<rparr>) =
     ([], Some SystemExit2) \<and>
   main (urlopen_via (\<lambda>u. Inr sample_listing)) (default_argv\<lparr>given_target := Some ''no such target''\<rparr>) =
     ([''Fetching S3 listing for prefix: therock-dist-linux-no such target-7 ...''],
      Some InvalidURL)"
proof -
  let ?a = "\<lparr>platform = ''linux'', target = ''no such target'', count = 5, quiet = False\<rparr>"
  have "urlopen_via (\<lambda>u. Inr sample_listing) (listing_url (platform ?a) (target ?a)) =
          Inl InvalidURL"
    using listing_url_refused [OF _ space_target, of "''linux''"]
    by (simp add: urlopen_via_refused)
  from run_failed [of "urlopen_via (\<lambda>u. Inr sample_listing)" ?a InvalidURL, OF this]
  show ?thesis
    by (simp add: main_def parse_args_def default_argv_def fetching_line_def prefix_def
        s3_target_def)
qed

text \<open>
  C8, amended. The program itself validates only the platform: \<open>linux\<close> and \<open>windows\<close> are
  accepted and every other platform string is rejected by the argument parser, with exit
  status 2, before anything is printed or requested. Every target string is accepted by
  the argument parser unchanged. For a target made of printable ASCII characters other
  than the space and \<open>#\<close> the run requests the listing for the prefix
  \<open>therock-dist-{platform}-{resolved_target}-7\<close>: it ends with the exception of that
  request when it fails, and with zero results, not an error, when the answer holds no
  key. For a target without \<open>#\<close> that holds a space, a control character or U+007F,
  \<open>urlopen\<close> raises \<open>InvalidURL\<close> after the first status line and no request is sent.
\<close>

theorem platform_choices_target_free:
  "((p = ''linux'' \<or> p = ''windows'') \<longrightarrow>
      parse_args (default_argv\<lparr>given_platform := Some p, given_target := Some t\<rparr>) =
        Inr \<lparr>platform = p, target = t, count = 5, quiet = False\<rparr>) \<and>
   (p \<noteq> ''linux'' \<and> p \<noteq> ''windows'' \<longrightarrow>
      main (urlopen_via net) (default_argv\<lparr>given_platform := Some p, given_target := Some t\<rparr>) =
        ([], Some SystemExit2)) \<and>
   ((p = ''linux'' \<or> p = ''windows'') \<and> plain_target t \<longrightarrow>
      (net (listing_url p t) = Inl e \<longrightarrow>
         main (urlopen_via net) (default_argv\<lparr>given_platform := Some p, given_target := Some t\<rparr>) =
           (fetching_line \<lparr>platform = p, target = t, count = 5, quiet = False\<rparr>, Some e)) \<and>
      (net (listing_url p t) = Inr data \<and> findall xml_key_rx data = [] \<longrightarrow>
         main (urlopen_via net) (default_argv\<lparr>given_platform := Some p, given_target := Some t\<rparr>) =
           (fetching_line \<lparr>platform = p, target = t, count = 5, quiet = False\<rparr> @
            showing_line \<lparr>platform = p, target = t, count = 5, quiet = False\<rparr> 0, None))) \<and>
   ((p = ''linux'' \<or> p = ''windows'') \<and> CHR ''#'' \<notin> set t \<and> list_ex refused_char t \<longrightarrow>
      main (urlopen_via net) (default_argv\<lparr>given_platform := Some p, given_target := Some t\<rparr>) =
        (fetching_line \<lparr>platform = p, target = t, count = 5, quiet = False\<rparr>, Some InvalidURL)) \<and>
   parse_args (default_argv\<lparr>given_target := Some t\<rparr>) =
     Inr \<lparr>platform = ''linux'', target = t, count = 5, quiet = False\<rparr> \<and>
   listing_url p t = S3_BASE @ ''?prefix=therock-dist-'' @ p @ ''-'' @ s3_target t @ ''-7''"
proof -
  let ?av = "default_argv\<lparr>given_platform := Some p, given_target := Some t\<rparr>"
  let ?a = "\<lparr>platform = p, target = t, count = 5, quiet = False\<rparr>"
  have ok: "parse_args ?av = Inr ?a" if "p = ''linux'' \<or> p = ''windows''"
    using that by (auto simp: parse_args_def default_argv_def)
  have main_run: "main (urlopen_via net) ?av = run (urlopen_via net) ?a"
    if "p = ''linux'' \<or> p = ''windows''"
    by (simp add: main_def ok [OF that])
  have A: "(p = ''linux'' \<or> p = ''windows'') \<longrightarrow> parse_args ?av = Inr ?a"
    using ok by (rule impI)
  have B: "p \<noteq> ''linux'' \<and> p \<noteq> ''windows'' \<longrightarrow> main (urlopen_via net) ?av = ([], Some SystemExit2)"
    by (simp add: main_def parse_args_def default_argv_def)
  have C: "(p = ''linux'' \<or> p = ''windows'') \<and> plain_target t \<longrightarrow>
      (net (listing_url p t) = Inl e \<longrightarrow>
         main (urlopen_via net) ?av = (fetching_line ?a, Some e)) \<and>
      (net (listing_url p t) = Inr data \<and> findall xml_key_rx data = [] \<longrightarrow>
         main (urlopen_via net) ?av = (fetching_line ?a @ showing_line ?a 0, None))"
  proof (intro impI conjI; elim conjE)
    assume p: "p = ''linux'' \<or> p = ''windows''" and t: "plain_target t"
    have via: "urlopen_via net (listing_url p t) = net (listing_url p t)"
      by (rule urlopen_via_plain [OF listing_url_plain [OF p t]])
    {
      assume "net (listing_url p t) = Inl e"
      with via have "urlopen_via net (listing_url (platform ?a) (target ?a)) = Inl e" by simp
      from run_failed [of "urlopen_via net" ?a e, OF this]
      show "main (urlopen_via net) ?av = (fetching_line ?a, Some e)"
        by (simp add: main_run [OF p])
    }
    {
      assume "net (listing_url p t) = Inr data" and "findall xml_key_rx data = []"
      with via have f: "urlopen_via net (listing_url (platform ?a) (target ?a)) = Inr data"
        and c: "candidates_of (key_rx (prefix (platform ?a) (target ?a))) data = Inr []"
        by (simp_all add: no_key_no_candidate)
      from run_fetched [of "urlopen_via net" ?a data "[]", OF f c]
      show "main (urlopen_via net) ?av = (fetching_line ?a @ showing_line ?a 0, None)"
        by (simp add: main_run [OF p] newest_of_def sort_reverse_def url_lines_def)
    }
  qed
  have D: "(p = ''linux'' \<or> p = ''windows'') \<and> CHR ''#'' \<notin> set t \<and> list_ex refused_char t \<longrightarrow>
      main (urlopen_via net) ?av = (fetching_line ?a, Some InvalidURL)"
  proof (intro impI; elim conjE)
    assume p: "p = ''linux'' \<or> p = ''windows''"
      and t: "CHR ''#'' \<notin> set t" "list_ex refused_char t"
    from listing_url_refused [OF p t]
    have "urlopen_via net (listing_url (platform ?a) (target ?a)) = Inl InvalidURL"
      by (simp add: urlopen_via_refused)
    from run_failed [of "urlopen_via net" ?a InvalidURL, OF this]
    show "main (urlopen_via net) ?av = (fetching_line ?a, Some InvalidURL)"
      by (simp add: main_run [OF p])
  qed
  have E: "parse_args (default_argv\<lparr>given_target := Some t\<rparr>) =
          Inr \<lparr>platform = ''linux'', target = t, count = 5, quiet = False\<rparr>"
    by (simp add: parse_args_def default_argv_def)
  have F: "listing_url p t =
      S3_BASE @ ''?prefix=therock-dist-'' @ p @ ''-'' @ s3_target t @ ''-7''"
    by (simp add: listing_url_def prefix_def)
  show ?thesis
    by (intro conjI A B C D E F)
qed

theorem platform_choices_target_free_witness:
  "(''windows'' = ''linux'' \<or> ''windows'' = ''windows'') \<and> plain_target ''gfx9999'' \<and>
   findall xml_key_rx empty_listing = [] \<and>
   main (urlopen_via (\<lambda>u. Inr empty_listing))
        (default_argv\<lparr>given_platform := Some ''windows'', given_target := Some ''gfx9999''\<rparr>) =
     ([''Fetching S3 listing for prefix: therock-dist-windows-gfx9999-7 ...'',
       ''Showing 0 newest candidate(s):''], None) \<and>
   CHR ''#'' \<notin> set ''no such target'' \<and> list_ex refused_char ''no such target'' \<and>
   main (urlopen_via (\<lambda>u. Inr empty_listing))
        (default_argv\<lparr>given_platform := Some ''windows'', given_target := Some ''no such target''\<rparr>) =
     ([''Fetching S3 listing for prefix: therock-dist-windows-no such target-7 ...''],
      Some InvalidURL) \<and>
   ''macos'' \<noteq> ''linux'' \<and> ''macos'' \<noteq> ''windows'' \<and>
   main (urlopen_via (\<lambda>u. Inr empty_listing))
        (default_argv\<lparr>given_platform := Some ''macos'', given_target := Some ''gfx9999''\<rparr>) =
     ([], Some SystemExit2)"
proof -
  let ?net = "\<lambda>u::string. (Inr empty_listing :: exn + string)"
  have answer: "?net (listing_url ''windows'' ''gfx9999'') = Inr empty_listing \<and>
      findall xml_key_rx empty_listing = []"
    by (simp add: empty_listing_keys)
  have lines: "fetching_line \<lparr>platform = ''windows'', target = t, count = 5, quiet = False\<rparr> =
      [''Fetching S3 listing for prefix: therock-dist-windows-'' @ s3_target t @ ''-7 ...'']"
    "showing_line \<lparr>platform = ''windows'', target = t, count = 5, quiet = False\<rparr> 0 =
      [''Showing 0 newest candidate(s):'']" for t
    by (simp_all add: fetching_line_def showing_line_def prefix_def str_nat_0 del: str_nat.simps)
  have targets: "s3_target ''gfx9999'' = ''gfx9999''" "s3_target ''no such target'' = ''no such target''"
    by (simp_all add: s3_target_def)
  from platform_choices_target_free
      [of "''windows''" "''gfx9999''" ?net ValueError empty_listing] plain_gfx9999 answer
  have 1: "main (urlopen_via ?net)
        (default_argv\<lparr>given_platform := Some ''windows'', given_target := Some ''gfx9999''\<rparr>) =
     ([''Fetching S3 listing for prefix: therock-dist-windows-gfx9999-7 ...'',
       ''Showing 0 newest candidate(s):''], None)"
    by (simp only: lines targets) simp
  from platform_choices_target_free
      [of "''windows''" "''no such target''" ?net ValueError empty_listing] space_target
  have 2: "main (urlopen_via ?net)
        (default_argv\<lparr>given_platform := Some ''windows'', given_target := Some ''no such target''\<rparr>) =
     ([''Fetching S3 listing for prefix: therock-dist-windows-no such target-7 ...''],
      Some InvalidURL)"
    by (simp only: lines targets) simp
  from platform_choices_target_free
      [of "''macos''" "''gfx9999''" ?net ValueError empty_listing]
  have 3: "main (urlopen_via ?net)
        (default_argv\<lparr>given_platform := Some ''macos'', given_target := Some ''gfx9999''\<rparr>) =
     ([], Some SystemExit2)"
    by simp
  have 4: "''windows'' = ''linux'' \<or> ''windows'' = ''windows''"
    "''macos'' \<noteq> ''linux''" "''macos'' \<noteq> ''windows''"
    by simp_all
  show ?thesis
    by (intro conjI 1 2 3 4 plain_gfx9999 empty_listing_keys space_target)
qed

section \<open>Strings outside the grammar\<close>

text \<open>
  C2. Every string that does not match the grammar of the version pattern, read as Python
  reads it (\<open>$\<close> also holds before a newline that ends the string), is mapped to the
  sentinel tuple \<open>(0, 0, 0, 1, 0)\<close>, and no exception is raised; \<open>not-a-version\<close> is such a
  string.
\<close>

theorem unparseable_sentinel:
  "(\<not> in_grammar version_rx v \<longrightarrow> parse_version v = Inr (0, 0, 0, 1, 0)) \<and>
   \<not> in_grammar version_rx ''not-a-version'' \<and>
   parse_version ''not-a-version'' = Inr (0, 0, 0, 1, 0)"
  using not_a_version_outside ex_not_a_version
  by (auto simp: in_grammar_iff parse_version_def sentinel_def)

theorem unparseable_sentinel_witness:
  "\<not> in_grammar version_rx ''1.2'' \<and> parse_version ''1.2'' = Inr (0, 0, 0, 1, 0)"
proof -
  have "re_match version_rx ''1.2'' = None" by code_simp
  then have "\<not> in_grammar version_rx ''1.2''" by (simp add: in_grammar_iff)
  with unparseable_sentinel [of "''1.2''"] show ?thesis by simp
qed

end
